theory Spec2Isabelle
  imports Complex_Main "HOL-Library.List_Lexorder" "HOL-Library.Char_ord"
    "HOL-Library.Sublist" "HOL-Library.Multiset"
begin

section \<open>News digest pipeline (news_digest.py)\<close>

text \<open>
  A shallow embedding of \<^verbatim>\<open>news_digest.py\<close>: the seen-article cache, the two source
  adapters, the dedupe stage, the per-article classification call, the grouping stage
  and \<^verbatim>\<open>main\<close>. Everything outside the file (HTTP, the feed parser, the chat
  completion, the JSON reader, the date parser, the template and the mail client) is a
  field of the record \<open>env\<close>; every exception of the source is an \<open>Inl\<close> value.
\<close>

subsection \<open>Python values\<close>

text \<open>
  Exceptions that the source can meet. \<open>OperationalError\<close> and \<open>IntegrityError\<close> are
  SQLAlchemy's; \<open>ConnectionError\<close> stands for any exception of \<^verbatim>\<open>requests.get\<close> or
  \<^verbatim>\<open>r.json()\<close>; \<open>ApiError\<close> for one of the chat completion or of the mail client;
  \<open>ValueError\<close> for the \<^verbatim>\<open>ValueError\<close> or \<^verbatim>\<open>OverflowError\<close> of a date conversion.
\<close>

datatype error =
  ConnectionError | OperationalError | IntegrityError | TypeError | IndexError | KeyError
  | AttributeError | ValueError | RuntimeError | ApiError

text \<open>
  What \<^verbatim>\<open>json.loads\<close> can return. A finite float is the rational it denotes (\<open>0.5\<close> is
  \<open>1/2\<close>); the non-finite floats are not modelled. A \<^verbatim>\<open>dict\<close> is its items in
  insertion order, with distinct keys.
\<close>

datatype pyval =
  PNone | PBool bool | PInt int | PFloat rat | PStr string
  | PList "pyval list" | PDict "(string \<times> pyval) list"

text \<open>Truth value of an object, as \<^verbatim>\<open>not x\<close>, \<^verbatim>\<open>x or y\<close> and \<^verbatim>\<open>if x\<close> read it.\<close>

fun truthy :: "pyval \<Rightarrow> bool" where
  "truthy PNone = False"
| "truthy (PBool b) = b"
| "truthy (PInt i) = (i \<noteq> 0)"
| "truthy (PFloat r) = (r \<noteq> 0)"
| "truthy (PStr s) = (s \<noteq> [])"
| "truthy (PList xs) = (xs \<noteq> [])"
| "truthy (PDict kvs) = (kvs \<noteq> [])"

text \<open>\<^verbatim>\<open>d.get(k)\<close> on a dict: \<^verbatim>\<open>None\<close> for a missing key.\<close>

definition dict_get :: "(string \<times> pyval) list \<Rightarrow> string \<Rightarrow> pyval" where
  "dict_get kvs k = (case map_of kvs k of None \<Rightarrow> PNone | Some v \<Rightarrow> v)"

text \<open>
  The fields of an article are strings or \<^verbatim>\<open>None\<close> (\<open>string option\<close>): what a
  well-formed NewsAPI answer and feedparser give. \<open>str_truthy\<close> is the truth value of
  such a field and \<open>py_or\<close> is \<^verbatim>\<open>x or y\<close> on two of them.
\<close>

fun str_truthy :: "string option \<Rightarrow> bool" where
  "str_truthy None = False"
| "str_truthy (Some s) = (s \<noteq> [])"

definition py_or :: "string option \<Rightarrow> string option \<Rightarrow> string option" where
  "py_or x y = (if str_truthy x then x else y)"

text \<open>\<^verbatim>\<open>x or ""\<close>, whose value is always a string.\<close>

definition or_empty :: "string option \<Rightarrow> string" where
  "or_empty x = (case x of None \<Rightarrow> [] | Some s \<Rightarrow> s)"

subsection \<open>The seen-article cache\<close>

text \<open>
  The table \<^verbatim>\<open>seen_articles\<close>: \<open>rows\<close> is its column \<^verbatim>\<open>article_id\<close> (unique, not
  null) in insertion order; the columns \<^verbatim>\<open>id\<close> and \<^verbatim>\<open>seen_at\<close> are never read by the
  program and are left out. The database can refuse a statement (a locked or unreadable
  file): \<open>select_fails\<close> and \<open>insert_fails\<close> say for which key \<^verbatim>\<open>conn.execute\<close> raises
  \<^verbatim>\<open>OperationalError\<close>. \<^verbatim>\<open>engine.connect()\<close> and \<^verbatim>\<open>conn.close()\<close> are taken to succeed
  (the module has already run \<^verbatim>\<open>meta.create_all(engine)\<close>), and an executed insert is
  committed (the connection's autocommit, which the source relies on).
\<close>

record db =
  rows :: "string list"
  select_fails :: "string \<Rightarrow> bool"
  insert_fails :: "string \<Rightarrow> bool"

text \<open>\<^verbatim>\<open>conn.execute(ins)\<close>: the constraints of the column, then the insert.\<close>

definition execute_insert :: "db \<Rightarrow> string option \<Rightarrow> error + db" where
  "execute_insert d article_id =
     (case article_id of
        None \<Rightarrow> Inl IntegrityError
      | Some k \<Rightarrow>
          if insert_fails d k then Inl OperationalError
          else if k \<in> set (rows d) then Inl IntegrityError
          else Inr (d\<lparr>rows := rows d @ [k]\<rparr>))"

text \<open>\<^verbatim>\<open>conn.execute(sel).fetchone() is not None\<close>.\<close>

definition execute_select :: "db \<Rightarrow> string \<Rightarrow> error + bool" where
  "execute_select d k =
     (if select_fails d k then Inl OperationalError else Inr (k \<in> set (rows d)))"

text \<open>
  \<^verbatim>\<open>add_seen\<close>: the insert is inside \<^verbatim>\<open>try: ... except Exception: pass\<close>, so every
  error of \<open>execute_insert\<close> is dropped and the cache is left as it was.
\<close>

definition add_seen :: "db \<Rightarrow> string option \<Rightarrow> error + db" where
  "add_seen d article_id =
     (case execute_insert d article_id of
        Inl e \<Rightarrow> Inr d
      | Inr d' \<Rightarrow> Inr d')"

text \<open>\<^verbatim>\<open>is_seen\<close>: no handler, an error of the select reaches the caller.\<close>

definition is_seen :: "db \<Rightarrow> string \<Rightarrow> error + bool" where
  "is_seen d article_id = execute_select d article_id"


subsection \<open>Configuration and the outside world\<close>

text \<open>The module-level configuration read from the environment variables.\<close>

record config =
  NEWSAPI_KEY :: "string option"
  RSS_FEEDS :: string
  SENDGRID_API_KEY :: "string option"
  FROM_EMAIL :: "string option"
  TO_EMAIL :: "string option"
  MAX_STORIES :: int

text \<open>
  An article as both adapters build it: the dict with the keys \<^verbatim>\<open>id\<close>, \<^verbatim>\<open>title\<close>,
  \<^verbatim>\<open>url\<close>, \<^verbatim>\<open>source\<close>, \<^verbatim>\<open>published\<close> (the key \<^verbatim>\<open>raw\<close> is never read and is left
  out).
\<close>

record article =
  art_id :: "string option"
  title :: "string option"
  url :: "string option"
  source :: "string option"
  published :: "string option"

text \<open>
  The JSON body of the NewsAPI answer, as far as \<^verbatim>\<open>fetch_newsapi\<close> reads it: the status
  and, for each article, the url, the title, the date and the \<^verbatim>\<open>source\<close>. The source
  of an article is missing, or an object with its \<^verbatim>\<open>name\<close>, or a value that is not an
  object (\<^verbatim>\<open>null\<close>, say). The \<^verbatim>\<open>articles\<close> are a list (the empty one when the key is
  missing) or a value that cannot be iterated (\<^verbatim>\<open>null\<close>).
\<close>

datatype source_field = SourceMissing | SourceNotObject | SourceObject "string option"

record newsapi_article =
  na_url :: "string option"
  na_title :: "string option"
  na_publishedAt :: "string option"
  na_source :: source_field

datatype articles_field = ArticlesNotList | Articles "newsapi_article list"

record newsapi_data =
  na_status :: "string option"
  na_articles :: articles_field

text \<open>What \<^verbatim>\<open>feedparser.parse\<close> returns, as far as \<^verbatim>\<open>fetch_rss_feeds\<close> reads it.\<close>

record entry =
  e_link :: "string option"
  e_id :: "string option"
  e_title :: "string option"
  e_published :: "string option"
  e_updated :: "string option"

record parsed_feed =
  feed_title :: "string option"
  entries :: "entry list"

text \<open>
  One element of \<^verbatim>\<open>processed\<close> in \<^verbatim>\<open>main\<close>: the dict with the keys \<^verbatim>\<open>title\<close>,
  \<^verbatim>\<open>url\<close>, \<^verbatim>\<open>source\<close>, \<^verbatim>\<open>published\<close>, \<^verbatim>\<open>summary\<close>, \<^verbatim>\<open>tags\<close>, \<^verbatim>\<open>sentiment\<close>,
  \<^verbatim>\<open>score\<close>. The last four come from the classification answer and can be any value.
\<close>

record info =
  i_title :: "string option"
  i_url :: "string option"
  i_source :: "string option"
  i_published :: "string option"
  summary :: pyval
  tags :: pyval
  sentiment :: pyval
  score :: pyval

text \<open>
  The capabilities the program calls:
  \<^item> \<open>requests_get_json\<close>: \<^verbatim>\<open>requests.get(...).json()\<close>, the parsed body or the exception;
  \<^item> \<open>feedparser_parse\<close>: \<^verbatim>\<open>feedparser.parse(feed)\<close>;
  \<^item> \<open>chat_completion\<close>: \<^verbatim>\<open>resp['choices'][0]['message']['content'].strip()\<close> of the
    chat completion for an article, or the exception raised on the way;
  \<^item> \<open>json_loads\<close>: \<^verbatim>\<open>json.loads\<close>, \<open>None\<close> when it raises;
  \<^item> \<open>py_str\<close>: \<^verbatim>\<open>str\<close> of a value;
  \<^item> \<open>dateparser_parse\<close>: \<^verbatim>\<open>dateparser.parse\<close>, \<open>None\<close> when the parser finds no date;
  \<^item> \<open>astimezone_strftime\<close>: \<^verbatim>\<open>dt.astimezone(tz.gettz(TIMEZONE)).strftime(...)\<close>, the
    text or the exception of the conversion (a date at the edge of the range of
    \<^verbatim>\<open>datetime\<close>, such as the year 1, cannot be moved to another zone);
  \<^item> \<open>template_render\<close> and \<open>subject_line\<close>: the rendered template and the subject, from
    the grouped stories and their number (both include the current time); the rendering
    is taken to succeed;
  \<^item> \<open>sendgrid_send\<close>: \<^verbatim>\<open>SendGridAPIClient(...).send(message)\<close>, the status code or the
    exception.
\<close>

text \<open>A \<^verbatim>\<open>datetime\<close>: year, month, day, hour, minute.\<close>

datatype datetime = Datetime int int int int int

record env =
  requests_get_json :: "error + newsapi_data"
  feedparser_parse :: "string \<Rightarrow> error + parsed_feed"
  chat_completion :: "article \<Rightarrow> error + string"
  json_loads :: "string \<Rightarrow> pyval option"
  py_str :: "pyval \<Rightarrow> string"
  dateparser_parse :: "string \<Rightarrow> datetime option"
  astimezone_strftime :: "datetime \<Rightarrow> error + string"
  template_render :: "(pyval \<times> info list) list \<Rightarrow> nat \<Rightarrow> string"
  subject_line :: "nat \<Rightarrow> string"
  sendgrid_send :: "string \<Rightarrow> string \<Rightarrow> error + int"

subsection \<open>Source adapters\<close>

text \<open>
  \<^verbatim>\<open>a.get('source', {}).get('name')\<close>: \<^verbatim>\<open>AttributeError\<close> when the source is present
  and not an object.
\<close>

definition source_name :: "newsapi_article \<Rightarrow> error + string option" where
  "source_name a =
     (case na_source a of
        SourceMissing \<Rightarrow> Inr None
      | SourceNotObject \<Rightarrow> Inl AttributeError
      | SourceObject name \<Rightarrow> Inr name)"

text \<open>The loop over the articles of the answer; it has no handler.\<close>

fun newsapi_loop :: "newsapi_article list \<Rightarrow> article list \<Rightarrow> error + article list" where
  "newsapi_loop [] articles = Inr articles"
| "newsapi_loop (a # rest) articles =
     (case source_name a of
        Inl e \<Rightarrow> Inl e
      | Inr name \<Rightarrow>
          newsapi_loop rest
            (articles @ [\<lparr>art_id = na_url a, title = na_title a, url = na_url a,
                          source = name, published = na_publishedAt a\<rparr>]))"

text \<open>
  \<^verbatim>\<open>fetch_newsapi\<close>. Without a key the result is empty; an answer whose status is not
  \<^verbatim>\<open>ok\<close> gives the empty list. The request, the decoding of its body and the loop have
  no handler: their exception leaves the function. The body is taken to be a JSON object.
\<close>

definition fetch_newsapi :: "config \<Rightarrow> env \<Rightarrow> error + article list" where
  "fetch_newsapi c w =
     (if \<not> str_truthy (NEWSAPI_KEY c) then Inr []
      else
        case requests_get_json w of
          Inl e \<Rightarrow> Inl e
        | Inr data \<Rightarrow>
            if na_status data = Some ''ok''
            then (case na_articles data of
                    ArticlesNotList \<Rightarrow> Inl TypeError
                  | Articles xs \<Rightarrow> newsapi_loop xs [])
            else Inr [])"

text \<open>
  \<^verbatim>\<open>s.split(',')\<close> and \<^verbatim>\<open>s.strip()\<close>. A character is a code point below 256; the white
  space among these is 9 to 13, 28 to 32, 133 and 160.
\<close>

fun split_comma :: "string \<Rightarrow> string list" where
  "split_comma [] = [[]]"
| "split_comma (c # cs) =
     (if c = CHR '','' then [] # split_comma cs
      else case split_comma cs of
             [] \<Rightarrow> [[c]]
           | w # ws \<Rightarrow> (c # w) # ws)"

definition is_space :: "char \<Rightarrow> bool" where
  "is_space c =
     (let n = (of_char c :: nat)
      in (9 \<le> n \<and> n \<le> 13) \<or> (28 \<le> n \<and> n \<le> 32) \<or> n = 133 \<or> n = 160)"

definition py_strip :: "string \<Rightarrow> string" where
  "py_strip s = rev (dropWhile is_space (rev (dropWhile is_space s)))"

text \<open>
  One entry of a feed. \<^verbatim>\<open>e.get('title') + e.get('published', '')\<close> is evaluated only
  when the link and the id are both empty, and raises \<^verbatim>\<open>TypeError\<close> when the title is
  \<^verbatim>\<open>None\<close>.
\<close>

definition rss_article :: "string \<Rightarrow> parsed_feed \<Rightarrow> entry \<Rightarrow> error + article" where
  "rss_article feed parsed e =
     (case (if str_truthy (py_or (e_link e) (e_id e)) then Inr (py_or (e_link e) (e_id e))
            else case e_title e of
                   None \<Rightarrow> Inl TypeError
                 | Some t \<Rightarrow> Inr (Some (t @ or_empty (e_published e)))) of
        Inl err \<Rightarrow> Inl err
      | Inr aid \<Rightarrow>
          Inr \<lparr>art_id = aid, title = e_title e, url = e_link e,
               source = py_or (feed_title parsed) (Some feed),
               published = Some (or_empty (py_or (e_published e) (e_updated e)))\<rparr>)"

text \<open>
  The inner loop over the entries of one feed. An exception ends the work on this feed
  (\<^verbatim>\<open>except Exception: continue\<close> of the outer loop); what was appended to
  \<^verbatim>\<open>results\<close> before stays there.
\<close>

fun rss_entries :: "string \<Rightarrow> parsed_feed \<Rightarrow> entry list \<Rightarrow> article list \<Rightarrow> article list" where
  "rss_entries feed parsed [] results = results"
| "rss_entries feed parsed (e # es) results =
     (case rss_article feed parsed e of
        Inl err \<Rightarrow> results
      | Inr a \<Rightarrow> rss_entries feed parsed es (results @ [a]))"

fun rss_loop :: "env \<Rightarrow> string list \<Rightarrow> article list \<Rightarrow> article list" where
  "rss_loop w [] results = results"
| "rss_loop w (feed # feeds) results =
     (case feedparser_parse w feed of
        Inl err \<Rightarrow> rss_loop w feeds results
      | Inr parsed \<Rightarrow> rss_loop w feeds (rss_entries feed parsed (entries parsed) results))"

definition fetch_rss_feeds :: "config \<Rightarrow> env \<Rightarrow> error + article list" where
  "fetch_rss_feeds c w =
     Inr (rss_loop w (filter (\<lambda>f. f \<noteq> []) (map py_strip (split_comma (RSS_FEEDS c)))) [])"

subsection \<open>Dedupe stage\<close>

text \<open>\<^verbatim>\<open>a.get('id') or a.get('url') or a.get('title')\<close>.\<close>

definition derived_key :: "article \<Rightarrow> string option" where
  "derived_key a = py_or (py_or (art_id a) (url a)) (title a)"

text \<open>
  The loop of \<^verbatim>\<open>dedupe_and_filter\<close>. The dict \<^verbatim>\<open>unique\<close> is its items in insertion
  order; a key is never assigned twice, so no item is overwritten.
\<close>

fun dedupe_loop ::
  "db \<Rightarrow> article list \<Rightarrow> (string \<times> article) list \<Rightarrow> error + (string \<times> article) list" where
  "dedupe_loop d [] unique = Inr unique"
| "dedupe_loop d (a # rest) unique =
     (case derived_key a of
        None \<Rightarrow> dedupe_loop d rest unique
      | Some key \<Rightarrow>
          if key = [] then dedupe_loop d rest unique
          else
            case is_seen d key of
              Inl e \<Rightarrow> Inl e
            | Inr seen \<Rightarrow>
                if seen then dedupe_loop d rest unique
                else if key \<in> set (map fst unique) then dedupe_loop d rest unique
                else dedupe_loop d rest (unique @ [(key, a)]))"

definition dedupe_and_filter :: "db \<Rightarrow> article list \<Rightarrow> error + article list" where
  "dedupe_and_filter d articles =
     (case dedupe_loop d articles [] of
        Inl e \<Rightarrow> Inl e
      | Inr unique \<Rightarrow> Inr (map snd unique))"

text \<open>
  \<^verbatim>\<open>sorted(all_articles, key=lambda x: x.get('published') or "", reverse=True)\<close>: a
  stable sort in descending order, which Python computes as the reverse of the stable
  ascending sort of the reversed list. Strings compare lexicographically by character.
\<close>

definition published_key :: "article \<Rightarrow> string" where
  "published_key x = or_empty (published x)"

definition sorted_by_published :: "article list \<Rightarrow> article list" where
  "sorted_by_published all_articles = rev (sort_key published_key (rev all_articles))"

text \<open>
  The slice \<^verbatim>\<open>xs[:n]\<close>: a negative \<open>n\<close> counts from the end of the list.
\<close>

definition slice_to :: "int \<Rightarrow> 'a list \<Rightarrow> 'a list" where
  "slice_to n xs =
     (if 0 \<le> n then take (nat n) xs else take (nat (int (length xs) + n)) xs)"

text \<open>
  The first half of \<^verbatim>\<open>main\<close> after the fetch: sort, \<^verbatim>\<open>dedupe_and_filter\<close>, and
  \<^verbatim>\<open>candidates[:MAX_STORIES]\<close>.
\<close>

definition select_candidates :: "config \<Rightarrow> db \<Rightarrow> article list \<Rightarrow> error + article list" where
  "select_candidates c d all_articles =
     (case dedupe_and_filter d (sorted_by_published all_articles) of
        Inl e \<Rightarrow> Inl e
      | Inr candidates \<Rightarrow> Inr (slice_to (MAX_STORIES c) candidates))"

subsection \<open>Enrichment\<close>

text \<open>
  \<^verbatim>\<open>normalize_date\<close>: \<^verbatim>\<open>None\<close> for a missing or empty text and for a text in which the
  parser finds no date. The conversion of a parsed date has no handler.
\<close>

definition normalize_date :: "env \<Rightarrow> string option \<Rightarrow> error + string option" where
  "normalize_date w d =
     (case d of
        None \<Rightarrow> Inr None
      | Some s \<Rightarrow>
          if s = [] then Inr None
          else
            case dateparser_parse w s of
              None \<Rightarrow> Inr None
            | Some dt \<Rightarrow>
                (case astimezone_strftime w dt of
                   Inl e \<Rightarrow> Inl e
                 | Inr text \<Rightarrow> Inr (Some text)))"

text \<open>The dict that both fallbacks of \<^verbatim>\<open>call_llm_for_article\<close> return, around its summary.\<close>

definition fallback_dict :: "string \<Rightarrow> pyval" where
  "fallback_dict s =
     PDict [(''summary'', PStr s), (''tags'', PList [PStr ''Other'']),
            (''sentiment'', PStr ''Neutral''), (''score'', PFloat (1 / 2))]"

text \<open>
  \<^verbatim>\<open>call_llm_for_article\<close>: the outer handler catches a failed call, the inner one a
  content that is not JSON; a content that is JSON is returned as parsed, whatever it is.
\<close>

definition call_llm_for_article :: "env \<Rightarrow> article \<Rightarrow> pyval" where
  "call_llm_for_article w a =
     (case chat_completion w a of
        Inl e \<Rightarrow> fallback_dict (or_empty (title a))
      | Inr out \<Rightarrow>
          (case json_loads w out of
             Some parsed \<Rightarrow> parsed
           | None \<Rightarrow> fallback_dict (take 400 out)))"

text \<open>
  The dict \<^verbatim>\<open>info\<close> of the loop of \<^verbatim>\<open>main\<close> as it is appended to \<^verbatim>\<open>processed\<close>, from
  the article, its normalized date \<open>p\<close> and the answer of \<^verbatim>\<open>call_llm_for_article\<close>.
\<close>

definition digest_item :: "env \<Rightarrow> article \<Rightarrow> string option \<Rightarrow> info" where
  "digest_item w a p =
     (let llm = call_llm_for_article w a in
      \<lparr>i_title = title a, i_url = url a, i_source = source a,
       i_published = p,
       summary = (case llm of PDict kvs \<Rightarrow> dict_get kvs ''summary''
                  | _ \<Rightarrow> PStr (take 400 (py_str w llm))),
       tags = (case llm of PDict kvs \<Rightarrow> dict_get kvs ''tags'' | _ \<Rightarrow> PList [PStr ''Other'']),
       sentiment = (case llm of PDict kvs \<Rightarrow> dict_get kvs ''sentiment'' | _ \<Rightarrow> PStr ''Neutral''),
       score = (case llm of PDict kvs \<Rightarrow> dict_get kvs ''score'' | _ \<Rightarrow> PFloat (1 / 2))\<rparr>)"

text \<open>
  The loop of \<^verbatim>\<open>main\<close>: the date is normalized (an exception of \<^verbatim>\<open>normalize_date\<close> ends
  the run there, with the cache as it is), the classification is called, the item is
  appended to \<^verbatim>\<open>processed\<close>, then \<^verbatim>\<open>add_seen(a.get('id'))\<close> runs. An error of
  \<open>add_seen\<close> would end the run as well.
\<close>

fun enrich_loop :: "env \<Rightarrow> db \<Rightarrow> article list \<Rightarrow> info list \<Rightarrow> (error + info list) \<times> db" where
  "enrich_loop w d [] processed = (Inr processed, d)"
| "enrich_loop w d (a # rest) processed =
     (case normalize_date w (published a) of
        Inl e \<Rightarrow> (Inl e, d)
      | Inr p \<Rightarrow>
          (let info = digest_item w a p;
               processed' = processed @ [info]
           in case add_seen d (art_id a) of
                Inl e \<Rightarrow> (Inl e, d)
              | Inr d' \<Rightarrow> enrich_loop w d' rest processed'))"

subsection \<open>Grouping\<close>

text \<open>
  The keys of the dict \<^verbatim>\<open>grouped\<close> are hashed and compared with \<^verbatim>\<open>==\<close>: a list or a
  dict is unhashable, and \<^verbatim>\<open>True\<close>, \<^verbatim>\<open>1\<close> and \<^verbatim>\<open>1.0\<close> are one key. \<open>hash_key\<close> is
  \<open>None\<close> for an unhashable value and otherwise the class of the value under \<^verbatim>\<open>==\<close>.
\<close>

datatype hkey = HNone | HNum rat | HStr string

fun hash_key :: "pyval \<Rightarrow> hkey option" where
  "hash_key PNone = Some HNone"
| "hash_key (PBool b) = Some (HNum (if b then 1 else 0))"
| "hash_key (PInt i) = Some (HNum (of_int i))"
| "hash_key (PFloat r) = Some (HNum r)"
| "hash_key (PStr s) = Some (HStr s)"
| "hash_key (PList xs) = None"
| "hash_key (PDict kvs) = None"

text \<open>
  \<^verbatim>\<open>tags[0]\<close> by itself: it raises on an empty list or string, on a dict (whose keys
  are strings), on \<^verbatim>\<open>None\<close> and on a number.
\<close>

fun subscript0 :: "pyval \<Rightarrow> error + pyval" where
  "subscript0 (PList (x # xs)) = Inr x"
| "subscript0 (PList []) = Inl IndexError"
| "subscript0 (PStr (c # cs)) = Inr (PStr [c])"
| "subscript0 (PStr []) = Inl IndexError"
| "subscript0 (PDict kvs) = Inl KeyError"
| "subscript0 v = Inl TypeError"

fun is_list :: "pyval \<Rightarrow> bool" where
  "is_list (PList xs) = True"
| "is_list v = False"

text \<open>
  \<^verbatim>\<open>tags = it.get('tags') or ["Other"]\<close> and
  \<^verbatim>\<open>primary = tags[0] if isinstance(tags, list) and tags else "Other"\<close>.
\<close>

definition primary_tag :: "info \<Rightarrow> error + pyval" where
  "primary_tag it =
     (let tgs = (if truthy (tags it) then tags it else PList [PStr ''Other'']) in
      if is_list tgs \<and> truthy tgs then subscript0 tgs else Inr (PStr ''Other''))"

text \<open>
  \<^verbatim>\<open>if primary not in grouped: grouped[primary] = []\<close> followed by
  \<^verbatim>\<open>grouped[primary].append(it)\<close>, on the items of the dict in insertion order.
\<close>

fun grouped_append :: "pyval \<Rightarrow> info \<Rightarrow> (pyval \<times> info list) list \<Rightarrow> (pyval \<times> info list) list" where
  "grouped_append primary it [] = [(primary, [it])]"
| "grouped_append primary it ((k, xs) # grouped) =
     (if hash_key k = hash_key primary then (k, xs @ [it]) # grouped
      else (k, xs) # grouped_append primary it grouped)"

fun group_loop :: "info list \<Rightarrow> (pyval \<times> info list) list \<Rightarrow> error + (pyval \<times> info list) list" where
  "group_loop [] grouped = Inr grouped"
| "group_loop (it # items) grouped =
     (case primary_tag it of
        Inl e \<Rightarrow> Inl e
      | Inr primary \<Rightarrow>
          if hash_key primary = None then Inl TypeError
          else group_loop items (grouped_append primary it grouped))"

definition group_by_topic :: "info list \<Rightarrow> error + (pyval \<times> info list) list" where
  "group_by_topic items = group_loop items []"

subsection \<open>Delivery and \<^verbatim>\<open>main\<close>\<close>

definition send_email_via_sendgrid :: "config \<Rightarrow> env \<Rightarrow> string \<Rightarrow> string \<Rightarrow> error + unit" where
  "send_email_via_sendgrid c w subject html_content =
     (if \<not> str_truthy (SENDGRID_API_KEY c) \<or> \<not> str_truthy (FROM_EMAIL c)
         \<or> \<not> str_truthy (TO_EMAIL c)
      then Inl RuntimeError
      else
        case sendgrid_send w subject html_content of
          Inl e \<Rightarrow> Inl e
        | Inr status_code \<Rightarrow> Inr ())"

definition build_and_send :: "config \<Rightarrow> env \<Rightarrow> info list \<Rightarrow> error + unit" where
  "build_and_send c w stories =
     (case group_by_topic stories of
        Inl e \<Rightarrow> Inl e
      | Inr grouped \<Rightarrow>
          send_email_via_sendgrid c w (subject_line w (length stories))
            (template_render w grouped (length stories)))"

datatype outcome = Sent | NoNewStories

text \<open>
  \<^verbatim>\<open>main\<close>: the result of the run and the cache it leaves. On an exception the cache
  is the one reached when the exception was raised: nothing in the program deletes a row.
\<close>

definition main :: "config \<Rightarrow> env \<Rightarrow> db \<Rightarrow> (error + outcome) \<times> db" where
  "main c w d =
     (case fetch_newsapi c w of
        Inl e \<Rightarrow> (Inl e, d)
      | Inr newsapi_articles \<Rightarrow>
          (case fetch_rss_feeds c w of
             Inl e \<Rightarrow> (Inl e, d)
           | Inr rss_articles \<Rightarrow>
               (case select_candidates c d (newsapi_articles @ rss_articles) of
                  Inl e \<Rightarrow> (Inl e, d)
                | Inr candidates \<Rightarrow>
                    (case enrich_loop w d candidates [] of
                       (Inl e, d') \<Rightarrow> (Inl e, d')
                     | (Inr processed, d') \<Rightarrow>
                         if processed \<noteq> [] then
                           (case build_and_send c w processed of
                              Inl e \<Rightarrow> (Inl e, d')
                            | Inr u \<Rightarrow> (Inr Sent, d'))
                         else (Inr NoNewStories, d')))))"


subsection \<open>Notions used to state the properties\<close>

text \<open>
  The key under which \<^verbatim>\<open>group_by_topic\<close> files an item: the hash key of its primary
  tag, \<open>None\<close> when the primary tag cannot be a key of a dict.
\<close>

definition group_key :: "info \<Rightarrow> hkey option" where
  "group_key it = (case primary_tag it of Inl e \<Rightarrow> None | Inr p \<Rightarrow> hash_key p)"

text \<open>\<open>groups_of items g\<close>: the dict \<open>g\<close> is the grouping of exactly the items \<open>items\<close>.\<close>

definition groups_of :: "info list \<Rightarrow> (pyval \<times> info list) list \<Rightarrow> bool" where
  "groups_of items g \<longleftrightarrow>
     distinct (map (hash_key \<circ> fst) g)
     \<and> sum_list (map (length \<circ> snd) g) = length items
     \<and> (\<forall>(k, xs) \<in> set g. xs \<noteq> [] \<and> xs = filter (\<lambda>it. group_key it = hash_key k) items)
     \<and> (\<forall>it \<in> set items. group_key it \<in> set (map (hash_key \<circ> fst) g))"

text \<open>
  \<open>fresh_items d xs u new\<close>: what the dedupe loop adds to \<^verbatim>\<open>unique\<close> (holding \<open>u\<close>
  before) while it walks \<open>xs\<close>.
\<close>

definition fresh_items ::
  "db \<Rightarrow> article list \<Rightarrow> (string \<times> article) list \<Rightarrow> (string \<times> article) list \<Rightarrow> bool" where
  "fresh_items d xs u new \<longleftrightarrow>
     subseq (map snd new) xs
     \<and> distinct (map fst new)
     \<and> set (map fst new) \<inter> set (map fst u) = {}
     \<and> (\<forall>(k, a) \<in> set new. derived_key a = Some k \<and> k \<noteq> [] \<and> k \<notin> set (rows d)
            \<and> find (\<lambda>b. derived_key b = Some k) xs = Some a)"

text \<open>
  The item that one pass of the loop of \<^verbatim>\<open>main\<close> appends for an article, \<open>None\<close> when
  \<^verbatim>\<open>normalize_date\<close> raises for its date.
\<close>

definition item_of :: "env \<Rightarrow> article \<Rightarrow> info option" where
  "item_of w a =
     (case normalize_date w (published a) of
        Inl e \<Rightarrow> None
      | Inr p \<Rightarrow> Some (digest_item w a p))"

text \<open>
  The Enrichment of the data model: a non-empty list of strings, one of the three
  sentiment labels, a number between 0 and 1.
\<close>

fun is_str :: "pyval \<Rightarrow> bool" where
  "is_str (PStr s) = True"
| "is_str v = False"

fun well_formed_tags :: "pyval \<Rightarrow> bool" where
  "well_formed_tags (PList xs) = (xs \<noteq> [] \<and> list_all is_str xs)"
| "well_formed_tags v = False"

fun well_formed_score :: "pyval \<Rightarrow> bool" where
  "well_formed_score (PInt i) = (0 \<le> i \<and> i \<le> 1)"
| "well_formed_score (PFloat r) = (0 \<le> r \<and> r \<le> 1)"
| "well_formed_score v = False"

definition well_formed_enrichment :: "info \<Rightarrow> bool" where
  "well_formed_enrichment it \<longleftrightarrow>
     well_formed_tags (tags it)
     \<and> sentiment it \<in> {PStr ''Positive'', PStr ''Neutral'', PStr ''Negative''}
     \<and> well_formed_score (score it)"

subsection \<open>Concrete runs\<close>

definition ex_db :: db where
  "ex_db = \<lparr>rows = [], select_fails = (\<lambda>k. False), insert_fails = (\<lambda>k. False)\<rparr>"

text \<open>A cache whose select fails for the key \<open>a\<close> only.\<close>

definition ex_db_fault :: db where
  "ex_db_fault = \<lparr>rows = [], select_fails = (\<lambda>k. k = ''a''), insert_fails = (\<lambda>k. False)\<rparr>"

definition ex_article :: "string \<Rightarrow> string option \<Rightarrow> article" where
  "ex_article k p =
     \<lparr>art_id = Some k, title = Some k, url = Some k, source = Some ''S'', published = p\<rparr>"

definition ex_config :: "int \<Rightarrow> config" where
  "ex_config n =
     \<lparr>NEWSAPI_KEY = Some ''key'', RSS_FEEDS = ''http://feed.example/rss'',
      SENDGRID_API_KEY = Some ''sg'', FROM_EMAIL = Some ''from@example.org'',
      TO_EMAIL = Some ''to@example.org'', MAX_STORIES = n\<rparr>"

text \<open>A classification answer that is a JSON object with an empty tag list.\<close>

definition ex_json :: string where
  \<open>ex_json = ''{"summary": "s", "tags": []}''\<close>

text \<open>
  NewsAPI answers with the article \<open>a\<close>, the one feed holds the entry \<open>b\<close>, every chat
  completion fails, the mail is accepted. The two dates of 2024 are parsed and converted;
  the date \<^verbatim>\<open>0001-01-01\<close> is parsed and its conversion raises.
\<close>

definition ex_env :: env where
  "ex_env =
     \<lparr>requests_get_json =
        Inr \<lparr>na_status = Some ''ok'',
             na_articles =
               Articles [\<lparr>na_url = Some ''a'', na_title = Some ''a'',
                          na_publishedAt = Some ''2024-01-02'',
                          na_source = SourceObject (Some ''S'')\<rparr>]\<rparr>,
      feedparser_parse =
        (\<lambda>f. Inr \<lparr>feed_title = Some ''S'',
                   entries = [\<lparr>e_link = Some ''b'', e_id = None, e_title = Some ''b'',
                               e_published = Some ''2024-01-01'', e_updated = None\<rparr>]\<rparr>),
      chat_completion = (\<lambda>a. Inl ApiError),
      json_loads =
        (\<lambda>s. if s = ex_json then Some (PDict [(''summary'', PStr ''s''), (''tags'', PList [])])
              else None),
      py_str = (\<lambda>v. []),
      dateparser_parse =
        (\<lambda>s. if s = ''2024-01-02'' then Some (Datetime 2024 1 2 0 0)
              else if s = ''2024-01-01'' then Some (Datetime 2024 1 1 0 0)
              else if s = ''0001-01-01'' then Some (Datetime 1 1 1 0 0)
              else None),
      astimezone_strftime =
        (\<lambda>dt. if dt = Datetime 2024 1 2 0 0 then Inr ''2024-01-02 00:00 UTC''
               else if dt = Datetime 2024 1 1 0 0 then Inr ''2024-01-01 00:00 UTC''
               else Inl ValueError),
      template_render = (\<lambda>g n. ''<html>''),
      subject_line = (\<lambda>n. ''Digest''),
      sendgrid_send = (\<lambda>subject html. Inr 202)\<rparr>"

text \<open>NewsAPI answers with one article that has a title and no url.\<close>

definition ex_env_no_url :: env where
  "ex_env_no_url =
     ex_env\<lparr>requests_get_json :=
              Inr \<lparr>na_status = Some ''ok'',
                   na_articles =
                     Articles [\<lparr>na_url = None, na_title = Some ''T'',
                                na_publishedAt = Some ''2024-01-02'',
                                na_source = SourceObject (Some ''S'')\<rparr>]\<rparr>,
            feedparser_parse := (\<lambda>f. Inl ConnectionError)\<rparr>"


definition ex_fallback_item :: "string \<Rightarrow> string \<Rightarrow> info" where
  "ex_fallback_item k p =
     \<lparr>i_title = Some k, i_url = Some k, i_source = Some ''S'', i_published = Some p,
      summary = PStr k, tags = PList [PStr ''Other''], sentiment = PStr ''Neutral'',
      score = PFloat (1 / 2)\<rparr>"

definition ex_article_no_url :: article where
  "ex_article_no_url =
     \<lparr>art_id = None, title = Some ''T'', url = None, source = Some ''S'',
      published = Some ''2024-01-02''\<rparr>"

definition ex_item :: "pyval \<Rightarrow> info" where
  "ex_item t =
     \<lparr>i_title = Some ''a'', i_url = Some ''a'', i_source = Some ''S'', i_published = None,
      summary = PStr ''s'', tags = t, sentiment = PStr ''Neutral'', score = PFloat (1 / 2)\<rparr>"

section \<open>Properties\<close>

subsection \<open>The seen-article cache\<close>

lemma add_seen_returns: "\<exists>d'. add_seen d k = Inr d'"
  by (simp add: add_seen_def split: sum.splits)

lemma add_seen_rows:
  "add_seen d k = Inr d' \<Longrightarrow>
     set (rows d) \<subseteq> set (rows d') \<and> select_fails d' = select_fails d
     \<and> insert_fails d' = insert_fails d"
  by (auto simp: add_seen_def execute_insert_def split: sum.splits option.splits if_splits)

text \<open>
  C6. Recording a key twice: neither call of \<open>add_seen\<close> returns an error, whatever the
  database does (a uniqueness conflict or any other error of the insert is caught), the
  second call leaves the cache as the first one left it, and when the database executes
  the statements for that key, \<open>is_seen\<close> then answers true.
\<close>

theorem add_seen_twice_then_is_seen:
  "\<exists>d1. add_seen d (Some k) = Inr d1 \<and> add_seen d1 (Some k) = Inr d1
     \<and> (\<not> insert_fails d k \<and> \<not> select_fails d k \<longrightarrow> is_seen d1 k = Inr True)"
  by (auto simp: add_seen_def execute_insert_def is_seen_def execute_select_def)

theorem add_seen_twice_then_is_seen_witness:
  "add_seen \<lparr>rows = [''a''], select_fails = (\<lambda>k. False), insert_fails = (\<lambda>k. False)\<rparr>
       (Some ''b'')
     = Inr \<lparr>rows = [''a'', ''b''], select_fails = (\<lambda>k. False), insert_fails = (\<lambda>k. False)\<rparr>
   \<and> add_seen \<lparr>rows = [''a'', ''b''], select_fails = (\<lambda>k. False), insert_fails = (\<lambda>k. False)\<rparr>
       (Some ''b'')
     = Inr \<lparr>rows = [''a'', ''b''], select_fails = (\<lambda>k. False), insert_fails = (\<lambda>k. False)\<rparr>
   \<and> is_seen \<lparr>rows = [''a'', ''b''], select_fails = (\<lambda>k. False), insert_fails = (\<lambda>k. False)\<rparr>
       ''b'' = Inr True"
  using add_seen_twice_then_is_seen
    [of "\<lparr>rows = [''a''], select_fails = (\<lambda>k. False), insert_fails = (\<lambda>k. False)\<rparr>" "''b''"]
  by (auto simp: add_seen_def execute_insert_def)

subsection \<open>Dedupe stage\<close>

lemma fresh_items_skip:
  assumes "fresh_items d xs u new"
    and "\<forall>(k, b) \<in> set new. derived_key a \<noteq> Some k"
  shows "fresh_items d (a # xs) u new"
  using assms unfolding fresh_items_def
  by (auto intro: subseq_Cons')

lemma fresh_items_take:
  assumes f: "fresh_items d xs (u @ [(key, a)]) new"
    and a: "derived_key a = Some key" "key \<noteq> []" "key \<notin> set (rows d)"
    and nu: "key \<notin> set (map fst u)"
  shows "fresh_items d (a # xs) u ((key, a) # new)"
proof -
  from f have sub: "subseq (map snd new) xs" and dist: "distinct (map fst new)"
    and disj: "set (map fst new) \<inter> set (map fst (u @ [(key, a)])) = {}"
    and each: "\<forall>(k, b) \<in> set new. derived_key b = Some k \<and> k \<noteq> [] \<and> k \<notin> set (rows d)
            \<and> find (\<lambda>b. derived_key b = Some k) xs = Some b"
    by (simp_all add: fresh_items_def)
  from disj have notin: "key \<notin> set (map fst new)"
    and disj': "set (map fst new) \<inter> set (map fst u) = {}"
    by auto
  have "\<forall>(k, b) \<in> set ((key, a) # new). derived_key b = Some k \<and> k \<noteq> [] \<and> k \<notin> set (rows d)
            \<and> find (\<lambda>b. derived_key b = Some k) (a # xs) = Some b"
  proof (clarify)
    fix k b assume kb: "(k, b) \<in> set ((key, a) # new)"
    show "derived_key b = Some k \<and> k \<noteq> [] \<and> k \<notin> set (rows d)
            \<and> find (\<lambda>b. derived_key b = Some k) (a # xs) = Some b"
    proof (cases "(k, b) = (key, a)")
      case True
      then show ?thesis using a by simp
    next
      case False
      with kb have in_new: "(k, b) \<in> set new" by auto
      then have "k \<in> set (map fst new)" by force
      with notin have "k \<noteq> key" by blast
      then show ?thesis using each in_new a(1) by auto
    qed
  qed
  moreover have "set (map fst ((key, a) # new)) \<inter> set (map fst u) = {}"
    using disj' nu by simp
  moreover have "distinct (map fst ((key, a) # new))" using dist notin by simp
  moreover have "subseq (map snd ((key, a) # new)) (a # xs)" using sub by simp
  ultimately show ?thesis
    unfolding fresh_items_def by blast
qed

lemma dedupe_loop_new:
  assumes "\<forall>k. \<not> select_fails d k"
  shows "\<exists>new. dedupe_loop d xs u = Inr (u @ new) \<and> fresh_items d xs u new"
proof (induction xs arbitrary: u)
  case Nil
  then show ?case by (simp add: fresh_items_def)
next
  case (Cons a xs)
  from Cons.IH[of u] obtain new where n: "dedupe_loop d xs u = Inr (u @ new)"
      "fresh_items d xs u new" by blast
  have seen: "\<And>k. is_seen d k = Inr (k \<in> set (rows d))"
    using assms by (simp add: is_seen_def execute_select_def)
  show ?case
  proof (cases "derived_key a")
    case None
    then have "fresh_items d (a # xs) u new" using n(2) by (intro fresh_items_skip) auto
    then show ?thesis using n None by auto
  next
    case (Some key)
    consider "key = []" | "key \<noteq> []" "key \<in> set (rows d)"
      | "key \<noteq> []" "key \<notin> set (rows d)" "key \<in> set (map fst u)"
      | "key \<noteq> []" "key \<notin> set (rows d)" "key \<notin> set (map fst u)" by blast
    then show ?thesis
    proof cases
      case 1
      have "fresh_items d (a # xs) u new" using n(2) Some 1
        by (intro fresh_items_skip) (auto simp: fresh_items_def)
      then show ?thesis using n Some 1 by auto
    next
      case 2
      have "fresh_items d (a # xs) u new" using n(2) Some 2
        by (intro fresh_items_skip) (auto simp: fresh_items_def)
      then show ?thesis using n Some 2 seen by auto
    next
      case 3
      have "\<forall>(k, b) \<in> set new. k \<noteq> key"
      proof (clarify)
        fix b assume "(key, b) \<in> set new"
        then have "key \<in> set (map fst new)" by force
        with n(2) 3(3) show False unfolding fresh_items_def by blast
      qed
      then have "fresh_items d (a # xs) u new" using n(2) Some
        by (intro fresh_items_skip) auto
      then show ?thesis using n Some 3 seen by auto
    next
      case 4
      from Cons.IH[of "u @ [(key, a)]"] obtain new' where
        n': "dedupe_loop d xs (u @ [(key, a)]) = Inr ((u @ [(key, a)]) @ new')"
        "fresh_items d xs (u @ [(key, a)]) new'" by blast
      have "fresh_items d (a # xs) u ((key, a) # new')"
        using fresh_items_take[OF n'(2) Some 4] .
      then show ?thesis using n' Some 4 seen by auto
    qed
  qed
qed

lemma dedupe_loop_fresh:
  assumes "dedupe_loop d xs u = Inr res"
  shows "\<exists>new. res = u @ new \<and> fresh_items d xs u new"
  using assms
proof (induction xs arbitrary: u res)
  case Nil
  then show ?case by (simp add: fresh_items_def)
next
  case (Cons a xs)
  have skip: "\<exists>new. res = u @ new \<and> fresh_items d (a # xs) u new"
    if r: "dedupe_loop d xs u = Inr res"
      and k: "\<And>new. fresh_items d xs u new \<Longrightarrow> \<forall>(k, b) \<in> set new. derived_key a \<noteq> Some k"
  proof -
    from Cons.IH[OF r] obtain new where n: "res = u @ new" "fresh_items d xs u new" by blast
    from fresh_items_skip[OF n(2) k[OF n(2)]] n(1) show ?thesis by blast
  qed
  show ?case
  proof (cases "derived_key a")
    case None
    with Cons.prems have "dedupe_loop d xs u = Inr res" by simp
    then show ?thesis using None by (intro skip) auto
  next
    case (Some key)
    show ?thesis
    proof (cases "key = []")
      case True
      with Cons.prems Some have "dedupe_loop d xs u = Inr res" by simp
      then show ?thesis using Some True by (intro skip) (auto simp: fresh_items_def)
    next
      case False
      have "\<not> select_fails d key"
        using Cons.prems Some False by (auto simp: is_seen_def execute_select_def)
      then have seen: "is_seen d key = Inr (key \<in> set (rows d))"
        by (simp add: is_seen_def execute_select_def)
      consider "key \<in> set (rows d)"
        | "key \<notin> set (rows d)" "key \<in> set (map fst u)"
        | "key \<notin> set (rows d)" "key \<notin> set (map fst u)" by blast
      then show ?thesis
      proof cases
        case 1
        with Cons.prems Some False seen have "dedupe_loop d xs u = Inr res" by simp
        then show ?thesis using Some 1 by (intro skip) (auto simp: fresh_items_def)
      next
        case 2
        with Cons.prems Some False seen have r: "dedupe_loop d xs u = Inr res" by simp
        have "\<forall>(k, b) \<in> set new. derived_key a \<noteq> Some k" if f: "fresh_items d xs u new" for new
        proof (clarify)
          fix k b assume "(k, b) \<in> set new" "derived_key a = Some k"
          then have "key \<in> set (map fst new)" using Some by force
          with f 2(2) show False unfolding fresh_items_def by blast
        qed
        with r show ?thesis by (intro skip)
      next
        case 3
        with Cons.prems Some False seen
        have "dedupe_loop d xs (u @ [(key, a)]) = Inr res" by simp
        from Cons.IH[OF this] obtain new' where
          n': "res = (u @ [(key, a)]) @ new'" "fresh_items d xs (u @ [(key, a)]) new'" by blast
        have "fresh_items d (a # xs) u ((key, a) # new')"
          using fresh_items_take[OF n'(2) Some False 3] .
        then show ?thesis using n'(1) by (intro exI[of _ "(key, a) # new'"]) simp
      qed
    qed
  qed
qed

lemma sorted_by_published_desc:
  "sorted_wrt (\<lambda>x y. published_key y \<le> published_key x) (sorted_by_published xs)"
  using sorted_sort_key[of published_key "rev xs"]
  by (simp add: sorted_by_published_def sorted_wrt_rev sorted_map)

lemma sorted_by_published_mset: "mset (sorted_by_published xs) = mset xs"
  by (simp add: sorted_by_published_def)

lemma sorted_by_published_stable:
  "filter (\<lambda>x. published_key x = p) (sorted_by_published xs)
     = filter (\<lambda>x. published_key x = p) xs"
  by (simp add: sorted_by_published_def rev_filter[symmetric] sort_key_stable)

lemma slice_to_take: "\<exists>n. slice_to m xs = take n xs \<and> (0 \<le> m \<longrightarrow> n = nat m)"
  by (auto simp: slice_to_def)

lemma dedupe_and_filter_returns:
  assumes "\<forall>k. \<not> select_fails d k"
  shows "\<exists>out. dedupe_and_filter d xs = Inr out"
  using dedupe_loop_new[OF assms, of xs "[]"] by (auto simp: dedupe_and_filter_def)

lemma dedupe_and_filter_props:
  assumes "dedupe_and_filter d xs = Inr out"
  shows "subseq out xs
     \<and> distinct (map derived_key out)
     \<and> (\<forall>a \<in> set out. find (\<lambda>b. derived_key b = derived_key a) xs = Some a)
     \<and> (\<forall>a \<in> set out. \<exists>k. derived_key a = Some k \<and> k \<noteq> [] \<and> k \<notin> set (rows d))"
proof -
  from assms obtain res where res: "dedupe_loop d xs [] = Inr res" "out = map snd res"
    by (auto simp: dedupe_and_filter_def split: sum.splits)
  from dedupe_loop_fresh[OF res(1)] have n: "fresh_items d xs [] res" by simp
  from n have each: "\<forall>(k, a) \<in> set res. derived_key a = Some k \<and> k \<noteq> [] \<and> k \<notin> set (rows d)
            \<and> find (\<lambda>b. derived_key b = Some k) xs = Some a"
    and sub: "subseq (map snd res) xs" and dist: "distinct (map fst res)"
    by (simp_all add: fresh_items_def)
  have "map derived_key (map snd res) = map (Some \<circ> fst) res"
    using each by auto
  then have "distinct (map derived_key (map snd res))"
    using dist by (simp add: distinct_map comp_def inj_on_def)
  moreover have "\<forall>a \<in> set (map snd res). find (\<lambda>b. derived_key b = derived_key a) xs = Some a"
    using each by fastforce
  moreover have "\<forall>a \<in> set (map snd res). \<exists>k. derived_key a = Some k \<and> k \<noteq> [] \<and> k \<notin> set (rows d)"
    using each by fastforce
  ultimately show ?thesis using res(2) sub by simp
qed

lemma dedupe_loop_error:
  assumes "a \<in> set xs" "derived_key a = Some k" "k \<noteq> []" "select_fails d k"
  shows "dedupe_loop d xs u = Inl OperationalError"
  using assms
proof (induction xs arbitrary: u)
  case Nil
  then show ?case by simp
next
  case (Cons x xs)
  show ?case
  proof (cases "x = a")
    case True
    then show ?thesis using Cons.prems
      by (simp add: is_seen_def execute_select_def)
  next
    case False
    with Cons have ih: "\<And>u. dedupe_loop d xs u = Inl OperationalError" by simp
    show ?thesis
      by (simp add: ih is_seen_def execute_select_def split: option.splits)
  qed
qed

text \<open>
  C8. For every batch and every state of the cache: the articles are sorted by
  \<^verbatim>\<open>published or ""\<close> in descending order (a permutation of the input that keeps the input
  order of articles with equal dates), and whatever list \<open>out\<close> the stage returns is a
  subsequence of the sorted articles, has pairwise different derived keys, holds for each
  key the first article of the sorted list with that key, holds no article without a key
  or with a key in the cache, and is no longer than \<^verbatim>\<open>MAX_STORIES\<close>, a count. The stage
  does return a list when the database answers every select.
\<close>

theorem select_candidates_unique_unseen:
  "((\<forall>k. \<not> select_fails d k) \<longrightarrow> (\<exists>out. select_candidates c d all_articles = Inr out))
   \<and> sorted_wrt (\<lambda>x y. published_key y \<le> published_key x) (sorted_by_published all_articles)
   \<and> mset (sorted_by_published all_articles) = mset all_articles
   \<and> (\<forall>p. filter (\<lambda>x. published_key x = p) (sorted_by_published all_articles)
            = filter (\<lambda>x. published_key x = p) all_articles)
   \<and> (\<forall>out. select_candidates c d all_articles = Inr out \<longrightarrow>
         subseq out (sorted_by_published all_articles)
         \<and> distinct (map derived_key out)
         \<and> (\<forall>a \<in> set out.
              find (\<lambda>b. derived_key b = derived_key a) (sorted_by_published all_articles)
                = Some a)
         \<and> (\<forall>a \<in> set out. \<exists>k. derived_key a = Some k \<and> k \<noteq> [] \<and> k \<notin> set (rows d))
         \<and> (0 \<le> MAX_STORIES c \<longrightarrow> int (length out) \<le> MAX_STORIES c))"
proof (intro conjI allI impI)
  let ?s = "sorted_by_published all_articles"
  show "sorted_wrt (\<lambda>x y. published_key y \<le> published_key x) ?s"
    by (rule sorted_by_published_desc)
  show "mset ?s = mset all_articles" by (rule sorted_by_published_mset)
  show "filter (\<lambda>x. published_key x = p) ?s = filter (\<lambda>x. published_key x = p) all_articles"
    for p by (rule sorted_by_published_stable)
  show "\<exists>out. select_candidates c d all_articles = Inr out" if "\<forall>k. \<not> select_fails d k"
    using dedupe_and_filter_returns[OF that, of ?s] by (auto simp: select_candidates_def)
  fix out assume r: "select_candidates c d all_articles = Inr out"
  then obtain full where f: "dedupe_and_filter d ?s = Inr full"
      and o: "out = slice_to (MAX_STORIES c) full"
    by (auto simp: select_candidates_def split: sum.splits)
  from dedupe_and_filter_props[OF f] have p: "subseq full ?s" "distinct (map derived_key full)"
       "\<forall>a \<in> set full. find (\<lambda>b. derived_key b = derived_key a) ?s = Some a"
       "\<forall>a \<in> set full. \<exists>k. derived_key a = Some k \<and> k \<noteq> [] \<and> k \<notin> set (rows d)"
    by blast+
  obtain n where n: "slice_to (MAX_STORIES c) full = take n full"
      "0 \<le> MAX_STORIES c \<longrightarrow> n = nat (MAX_STORIES c)"
    using slice_to_take by blast
  have t: "out = take n full" using o n(1) by simp
  have "subseq (take n full) full" by (metis append_take_drop_id prefix_def prefix_imp_subseq)
  then show "subseq out ?s" using p(1) t subseq_order.order_trans by blast
  show "distinct (map derived_key out)"
    using p(2) t by (simp add: take_map[symmetric] distinct_take)
  have m: "set out \<subseteq> set full" unfolding t by (rule set_take_subset)
  show "\<forall>a \<in> set out. find (\<lambda>b. derived_key b = derived_key a) ?s = Some a"
    using p(3) m by blast
  show "\<forall>a \<in> set out. \<exists>k. derived_key a = Some k \<and> k \<noteq> [] \<and> k \<notin> set (rows d)"
    using p(4) m by blast
  show "int (length out) \<le> MAX_STORIES c" if "0 \<le> MAX_STORIES c"
    using n(2) t that by auto
qed

text \<open>
  The scenario of the specification, with a third article that has no date: \<open>b\<close>, \<open>a\<close>,
  \<open>a\<close> again and \<open>c\<close> give \<open>a\<close>, \<open>b\<close>, \<open>c\<close>.
\<close>

theorem select_candidates_unique_unseen_witness:
  "(\<forall>k. \<not> select_fails ex_db k)
   \<and> select_candidates (ex_config 10) ex_db
        [ex_article ''b'' (Some ''2024-01-01''), ex_article ''a'' (Some ''2024-01-02''),
         ex_article ''a'' (Some ''2024-01-02''), ex_article ''c'' None]
       = Inr [ex_article ''a'' (Some ''2024-01-02''), ex_article ''b'' (Some ''2024-01-01''),
              ex_article ''c'' None]
   \<and> 0 \<le> MAX_STORIES (ex_config 10)
   \<and> int (length [ex_article ''a'' (Some ''2024-01-02''), ex_article ''b'' (Some ''2024-01-01''),
              ex_article ''c'' None]) \<le> MAX_STORIES (ex_config 10)"
proof -
  have h: "\<forall>k. \<not> select_fails ex_db k" by (simp add: ex_db_def)
  have e: "select_candidates (ex_config 10) ex_db
        [ex_article ''b'' (Some ''2024-01-01''), ex_article ''a'' (Some ''2024-01-02''),
         ex_article ''a'' (Some ''2024-01-02''), ex_article ''c'' None]
       = Inr [ex_article ''a'' (Some ''2024-01-02''), ex_article ''b'' (Some ''2024-01-01''),
              ex_article ''c'' None]"
    by (simp add: select_candidates_def dedupe_and_filter_def sorted_by_published_def
        published_key_def or_empty_def ex_article_def ex_config_def ex_db_def derived_key_def
        py_or_def is_seen_def execute_select_def slice_to_def)
  have m: "0 \<le> MAX_STORIES (ex_config 10)" by (simp add: ex_config_def)
  show ?thesis
    using select_candidates_unique_unseen [of ex_db "ex_config 10"
        "[ex_article ''b'' (Some ''2024-01-01''), ex_article ''a'' (Some ''2024-01-02''),
          ex_article ''a'' (Some ''2024-01-02''), ex_article ''c'' None]"] h e m
    by simp
qed

lemma sorted_by_published_set: "set (sorted_by_published xs) = set xs"
  by (simp add: sorted_by_published_def)

text \<open>
  C2 (amended). When the select fails for the key of an article that reaches the check
  (its derived key is a non-empty string), the failure is not read as "unseen": the error
  leaves \<^verbatim>\<open>dedupe_and_filter\<close>, and \<^verbatim>\<open>main\<close> ends with it, the cache unchanged. No
  article of the batch goes on to enrichment.
\<close>

theorem is_seen_failure_aborts_run:
  assumes "fetch_newsapi c w = Inr newsapi_articles"
    and "fetch_rss_feeds c w = Inr rss_articles"
    and "a \<in> set (newsapi_articles @ rss_articles)"
    and "derived_key a = Some k" and "k \<noteq> []" and "select_fails d k"
  shows "dedupe_and_filter d (sorted_by_published (newsapi_articles @ rss_articles))
           = Inl OperationalError
         \<and> main c w d = (Inl OperationalError, d)"
proof -
  have "a \<in> set (sorted_by_published (newsapi_articles @ rss_articles))"
    using assms(3) by (simp only: sorted_by_published_set)
  from dedupe_loop_error[OF this assms(4,5,6)]
  have e: "dedupe_and_filter d (sorted_by_published (newsapi_articles @ rss_articles))
           = Inl OperationalError"
    by (simp add: dedupe_and_filter_def)
  then show ?thesis
    using assms(1,2) by (simp add: main_def select_candidates_def)
qed

lemma ex_fetch_newsapi:
  "NEWSAPI_KEY c = Some ''key'' \<Longrightarrow>
     fetch_newsapi c ex_env = Inr [ex_article ''a'' (Some ''2024-01-02'')]"
  by (simp add: fetch_newsapi_def source_name_def ex_env_def ex_article_def)

lemma ex_feeds:
  "filter (\<lambda>f. f \<noteq> []) (map py_strip (split_comma ''http://feed.example/rss''))
     = [''http://feed.example/rss'']"
  by code_simp

lemma ex_fetch_rss_feeds:
  assumes "RSS_FEEDS c = ''http://feed.example/rss''"
    and "feedparser_parse w = feedparser_parse ex_env"
  shows "fetch_rss_feeds c w = Inr [ex_article ''b'' (Some ''2024-01-01'')]"
  unfolding fetch_rss_feeds_def assms(1) ex_feeds
  by (simp add: assms(2) ex_env_def rss_article_def py_or_def or_empty_def ex_article_def)

lemma ex_config_fields:
  "NEWSAPI_KEY (ex_config n) = Some ''key''"
  "RSS_FEEDS (ex_config n) = ''http://feed.example/rss''"
  "MAX_STORIES (ex_config n) = n"
  by (simp_all add: ex_config_def)

text \<open>The run on the example: the article \<open>a\<close> of NewsAPI meets the failing select.\<close>

theorem is_seen_failure_aborts_run_witness:
  "select_fails ex_db_fault ''a''
   \<and> dedupe_and_filter ex_db_fault
        (sorted_by_published
           [ex_article ''a'' (Some ''2024-01-02''), ex_article ''b'' (Some ''2024-01-01'')])
       = Inl OperationalError
   \<and> main (ex_config 15) ex_env ex_db_fault = (Inl OperationalError, ex_db_fault)"
proof -
  have 1: "ex_article ''a'' (Some ''2024-01-02'')
      \<in> set ([ex_article ''a'' (Some ''2024-01-02'')] @ [ex_article ''b'' (Some ''2024-01-01'')])"
    by simp
  have 2: "derived_key (ex_article ''a'' (Some ''2024-01-02'')) = Some ''a''"
    by (simp add: derived_key_def py_or_def ex_article_def)
  have 3: "''a'' \<noteq> []" by simp
  have 4: "select_fails ex_db_fault ''a''" by (simp add: ex_db_fault_def)
  show ?thesis
    using is_seen_failure_aborts_run
      [OF ex_fetch_newsapi [OF ex_config_fields(1)]
          ex_fetch_rss_feeds [OF ex_config_fields(2) refl] 1 2 3 4, of 15] 4
    by simp
qed

text \<open>
  C2, as stated, fails: the select fails for the key \<open>a\<close> and succeeds for \<open>b\<close>, whose
  article is new, and the stage returns the error, not the list that holds \<open>b\<close>.
\<close>

theorem is_seen_failure_excludes_other_items:
  "is_seen ex_db_fault ''a'' = Inl OperationalError
   \<and> is_seen ex_db_fault ''b'' = Inr False
   \<and> dedupe_and_filter ex_db_fault
        [ex_article ''a'' (Some ''2024-01-02''), ex_article ''b'' (Some ''2024-01-01'')]
       = Inl OperationalError"
  by (simp add: dedupe_and_filter_def is_seen_def execute_select_def ex_db_fault_def
      derived_key_def py_or_def ex_article_def)

subsection \<open>Grouping\<close>




lemma primary_tag_returns: "\<exists>p. primary_tag it = Inr p"
  by (cases "tags it" rule: subscript0.cases) (auto simp: primary_tag_def)

lemma grouped_append_no_match:
  "hash_key p \<notin> set (map (hash_key \<circ> fst) g) \<Longrightarrow> grouped_append p it g = g @ [(p, [it])]"
  by (induction g) auto

lemma map_no_match:
  "h \<notin> set (map (hash_key \<circ> fst) g) \<Longrightarrow>
     map (\<lambda>(k, xs). if hash_key k = h then (k, xs @ [it]) else (k, xs)) g = g"
  by (induction g) auto

lemma grouped_append_match:
  "distinct (map (hash_key \<circ> fst) g) \<Longrightarrow> hash_key p \<in> set (map (hash_key \<circ> fst) g) \<Longrightarrow>
     grouped_append p it g
       = map (\<lambda>(k, xs). if hash_key k = hash_key p then (k, xs @ [it]) else (k, xs)) g"
proof (induction g)
  case Nil
  then show ?case by simp
next
  case (Cons kx g)
  obtain k xs where kx: "kx = (k, xs)" by (cases kx)
  show ?case
  proof (cases "hash_key k = hash_key p")
    case True
    with Cons.prems kx have "hash_key p \<notin> set (map (hash_key \<circ> fst) g)" by auto
    then show ?thesis using True kx by (simp add: map_no_match)
  next
    case False
    then show ?thesis using Cons kx by auto
  qed
qed

lemma grouped_append_sizes:
  "sum_list (map (length \<circ> snd) (grouped_append p it g))
     = Suc (sum_list (map (length \<circ> snd) g))"
  by (induction g) auto


lemma groups_of_append:
  assumes "groups_of items g" "primary_tag it = Inr p" "hash_key p \<noteq> None"
  shows "groups_of (items @ [it]) (grouped_append p it g)"
proof (cases "hash_key p \<in> set (map (hash_key \<circ> fst) g)")
  case True
  have gk: "group_key it = hash_key p" using assms by (simp add: group_key_def)
  from assms(1) have d: "distinct (map (hash_key \<circ> fst) g)" by (simp add: groups_of_def)
  have s: "sum_list (map (length \<circ> snd) (grouped_append p it g)) = length (items @ [it])"
    using assms(1) by (simp add: grouped_append_sizes groups_of_def)
  have keys: "map (hash_key \<circ> fst)
      (map (\<lambda>(k, xs). if hash_key k = hash_key p then (k, xs @ [it]) else (k, xs)) g)
      = map (hash_key \<circ> fst) g"
    by (induction g) auto
  show ?thesis using assms(1) True gk s
    unfolding grouped_append_match[OF d True] groups_of_def keys
    apply (intro conjI)
    subgoal by simp
    subgoal by simp
    subgoal by (auto split: if_splits)
    subgoal by auto
    done
next
  case False
  have gk: "group_key it = hash_key p" using assms by (simp add: group_key_def)
  show ?thesis using assms(1) False gk
    unfolding grouped_append_no_match[OF False] groups_of_def
    apply (intro conjI)
    subgoal by simp
    subgoal by simp
    subgoal by (fastforce simp: filter_empty_conv image_iff)
    subgoal by auto
    done
qed

lemma group_loop_groups:
  assumes "groups_of prev g" "\<forall>it \<in> set items. group_key it \<noteq> None"
  shows "\<exists>g'. group_loop items g = Inr g' \<and> groups_of (prev @ items) g'"
  using assms
proof (induction items arbitrary: prev g)
  case Nil
  then show ?case by simp
next
  case (Cons it items)
  obtain p where p: "primary_tag it = Inr p" using primary_tag_returns by blast
  with Cons.prems(2) have h: "hash_key p \<noteq> None" by (simp add: group_key_def)
  have "groups_of (prev @ [it]) (grouped_append p it g)"
    using groups_of_append[OF Cons.prems(1) p h] .
  from Cons.IH[OF this] Cons.prems(2) p h show ?case by auto
qed

lemma group_loop_fails:
  assumes "it \<in> set items" "group_key it = None"
  shows "\<exists>e. group_loop items g = Inl e"
  using assms
proof (induction items arbitrary: g)
  case Nil
  then show ?case by simp
next
  case (Cons x items)
  then show ?case
    by (cases "primary_tag x") (auto simp: group_key_def split: sum.splits)
qed

lemma group_by_topic_groups:
  assumes "\<forall>it \<in> set items. group_key it \<noteq> None"
  shows "\<exists>g. group_by_topic items = Inr g \<and> groups_of items g"
proof -
  have "groups_of [] []" by (simp add: groups_of_def)
  from group_loop_groups[OF this assms] show ?thesis by (simp add: group_by_topic_def)
qed

text \<open>
  C7. When the primary tag of every item can be a key of a dict (as it can when the
  tags are strings, \<^verbatim>\<open>None\<close>, empty or not a list), \<^verbatim>\<open>group_by_topic\<close> returns a dict whose
  group sizes add up to the number of items, whose keys are pairwise different, each of
  whose groups holds exactly the items with that key in their input order, and in which
  every item has its group.
\<close>

theorem group_by_topic_partitions:
  assumes "\<forall>it \<in> set items. group_key it \<noteq> None"
  shows "\<exists>grouped. group_by_topic items = Inr grouped
     \<and> sum_list (map (length \<circ> snd) grouped) = length items
     \<and> distinct (map (hash_key \<circ> fst) grouped)
     \<and> (\<forall>(k, xs) \<in> set grouped. xs = filter (\<lambda>it. group_key it = hash_key k) items)
     \<and> (\<forall>it \<in> set items. \<exists>(k, xs) \<in> set grouped. group_key it = hash_key k)"
proof -
  from group_by_topic_groups[OF assms] obtain g where
    g: "group_by_topic items = Inr g" "groups_of items g" by blast
  from g(2) have "\<forall>it \<in> set items. \<exists>(k, xs) \<in> set g. group_key it = hash_key k"
    unfolding groups_of_def by fastforce
  with g show ?thesis unfolding groups_of_def by (intro exI[of _ g]) auto
qed

text \<open>Three items, two with the primary tag \<open>AI\<close> and one without tags.\<close>

theorem group_by_topic_partitions_witness:
  "list_all (\<lambda>it. group_key it \<noteq> None)
     [ex_item (PList [PStr ''AI'']), ex_item PNone, ex_item (PList [PStr ''AI'', PStr ''Markets''])]
   \<and> group_by_topic [ex_item (PList [PStr ''AI'']), ex_item PNone, ex_item (PList [PStr ''AI'', PStr ''Markets''])]
       = Inr [(PStr ''AI'', [ex_item (PList [PStr ''AI'']), ex_item (PList [PStr ''AI'', PStr ''Markets''])]),
              (PStr ''Other'', [ex_item PNone])]"
proof -
  have h: "\<forall>it \<in> set [ex_item (PList [PStr ''AI'']), ex_item PNone, ex_item (PList [PStr ''AI'', PStr ''Markets''])].
       group_key it \<noteq> None"
    by (simp add: group_key_def primary_tag_def ex_item_def)
  have e: "group_by_topic [ex_item (PList [PStr ''AI'']), ex_item PNone, ex_item (PList [PStr ''AI'', PStr ''Markets''])]
       = Inr [(PStr ''AI'', [ex_item (PList [PStr ''AI'']), ex_item (PList [PStr ''AI'', PStr ''Markets''])]),
              (PStr ''Other'', [ex_item PNone])]"
    by (simp add: group_by_topic_def primary_tag_def ex_item_def)
  show ?thesis using group_by_topic_partitions [OF h] h e by (simp add: list_all_iff)
qed

lemma primary_tag_other:
  "\<not> (is_list (tags it) \<and> truthy (tags it)) \<Longrightarrow> primary_tag it = Inr (PStr ''Other'')"
  by (cases "tags it" rule: subscript0.cases) (auto simp: primary_tag_def)

lemma primary_tag_first: "tags it = PList (x # xs) \<Longrightarrow> primary_tag it = Inr x"
  by (simp add: primary_tag_def)

lemma group_key_None_iff:
  "group_key it = None \<longleftrightarrow> (\<exists>x xs. tags it = PList (x # xs) \<and> hash_key x = None)"
proof (cases "is_list (tags it) \<and> truthy (tags it)")
  case True
  then obtain x xs where "tags it = PList (x # xs)"
    by (cases "tags it" rule: subscript0.cases) auto
  then show ?thesis by (simp add: group_key_def primary_tag_first)
next
  case False
  then have "\<not> (\<exists>x xs. tags it = PList (x # xs))" by auto
  then show ?thesis using primary_tag_other[OF False] by (simp add: group_key_def)
qed

text \<open>
  C10 (amended). An item whose tags are \<^verbatim>\<open>None\<close>, an empty list or not a list has the
  primary tag \<open>Other\<close>, and the first element is read only from a non-empty list, so the
  subscript never raises. \<^verbatim>\<open>group_by_topic\<close> returns exactly when no item has a non-empty
  tag list whose first element is unhashable (a list or a dict); when it returns, every
  item of the first kind is in the group \<open>Other\<close>.
\<close>

theorem group_by_topic_other_and_unhashable:
  "(\<not> (is_list (tags it) \<and> truthy (tags it)) \<longrightarrow> primary_tag it = Inr (PStr ''Other''))
   \<and> (\<forall>x xs. tags it = PList (x # xs) \<longrightarrow> primary_tag it = Inr x)
   \<and> ((\<exists>g. group_by_topic items = Inr g)
        \<longleftrightarrow> (\<forall>i \<in> set items. \<forall>x xs. tags i = PList (x # xs) \<longrightarrow> hash_key x \<noteq> None))
   \<and> (\<forall>g. group_by_topic items = Inr g \<and> it \<in> set items
          \<and> \<not> (is_list (tags it) \<and> truthy (tags it))
        \<longrightarrow> (\<exists>xs. (PStr ''Other'', xs) \<in> set g \<and> it \<in> set xs))"
proof (intro conjI allI impI)
  assume "\<not> (is_list (tags it) \<and> truthy (tags it))"
  then show "primary_tag it = Inr (PStr ''Other'')" by (rule primary_tag_other)
next
  fix x xs assume "tags it = PList (x # xs)"
  then show "primary_tag it = Inr x" by (rule primary_tag_first)
next
  show "(\<exists>g. group_by_topic items = Inr g)
        \<longleftrightarrow> (\<forall>i \<in> set items. \<forall>x xs. tags i = PList (x # xs) \<longrightarrow> hash_key x \<noteq> None)"
  proof
    assume r: "\<exists>g. group_by_topic items = Inr g"
    show "\<forall>i \<in> set items. \<forall>x xs. tags i = PList (x # xs) \<longrightarrow> hash_key x \<noteq> None"
    proof (intro ballI allI impI)
      fix i x xs assume i: "i \<in> set items" "tags i = PList (x # xs)"
      show "hash_key x \<noteq> None"
      proof
        assume "hash_key x = None"
        with i(2) have "group_key i = None" using group_key_None_iff by blast
        from group_loop_fails[OF i(1) this, of "[]"] r show False
          by (auto simp: group_by_topic_def)
      qed
    qed
  next
    assume "\<forall>i \<in> set items. \<forall>x xs. tags i = PList (x # xs) \<longrightarrow> hash_key x \<noteq> None"
    then have "\<forall>i \<in> set items. group_key i \<noteq> None" using group_key_None_iff by blast
    from group_by_topic_groups[OF this] show "\<exists>g. group_by_topic items = Inr g" by blast
  qed
next
  fix g assume a: "group_by_topic items = Inr g \<and> it \<in> set items
          \<and> \<not> (is_list (tags it) \<and> truthy (tags it))"
  then have p: "primary_tag it = Inr (PStr ''Other'')" using primary_tag_other by blast
  then have k: "group_key it = Some (HStr ''Other'')" by (simp add: group_key_def)
  have "\<forall>i \<in> set items. group_key i \<noteq> None"
  proof
    fix i assume "i \<in> set items"
    show "group_key i \<noteq> None"
    proof
      assume "group_key i = None"
      from group_loop_fails[OF \<open>i \<in> set items\<close> this, of "[]"] a show False
        by (auto simp: group_by_topic_def)
    qed
  qed
  from group_by_topic_groups[OF this] a have go: "groups_of items g" by auto
  with a k obtain kx where kx: "kx \<in> set g" "hash_key (fst kx) = Some (HStr ''Other'')"
    unfolding groups_of_def by force
  then have f: "fst kx = PStr ''Other''" by (cases "fst kx") (auto split: if_splits)
  from go kx(1) have "snd kx = filter (\<lambda>i. group_key i = hash_key (fst kx)) items"
    unfolding groups_of_def by force
  with a k kx(2) have "it \<in> set (snd kx)" by simp
  with kx(1) f show "\<exists>xs. (PStr ''Other'', xs) \<in> set g \<and> it \<in> set xs"
    by (intro exI[of _ "snd kx"]) (metis prod.collapse)
qed

text \<open>A bare string and an empty list go to \<open>Other\<close>, a list of one string to its tag.\<close>

theorem group_by_topic_other_and_unhashable_witness:
  "\<not> (is_list (tags (ex_item (PStr ''AI''))) \<and> truthy (tags (ex_item (PStr ''AI''))))
   \<and> primary_tag (ex_item (PStr ''AI'')) = Inr (PStr ''Other'')
   \<and> primary_tag (ex_item (PList [PStr ''AI''])) = Inr (PStr ''AI'')
   \<and> group_by_topic [ex_item (PStr ''AI''), ex_item (PList []), ex_item (PList [PStr ''AI''])]
       = Inr [(PStr ''Other'', [ex_item (PStr ''AI''), ex_item (PList [])]),
              (PStr ''AI'', [ex_item (PList [PStr ''AI''])])]"
proof -
  have e: "group_by_topic [ex_item (PStr ''AI''), ex_item (PList []), ex_item (PList [PStr ''AI''])]
       = Inr [(PStr ''Other'', [ex_item (PStr ''AI''), ex_item (PList [])]),
              (PStr ''AI'', [ex_item (PList [PStr ''AI''])])]"
    by (simp add: group_by_topic_def primary_tag_def ex_item_def)
  have t: "tags (ex_item (PList [PStr ''AI''])) = PList [PStr ''AI'']"
    and n: "\<not> (is_list (tags (ex_item (PStr ''AI''))) \<and> truthy (tags (ex_item (PStr ''AI''))))"
    by (simp_all add: ex_item_def)
  show ?thesis
    using group_by_topic_other_and_unhashable
      [of "ex_item (PStr ''AI'')"
          "[ex_item (PStr ''AI''), ex_item (PList []), ex_item (PList [PStr ''AI''])]"]
      group_by_topic_other_and_unhashable [of "ex_item (PList [PStr ''AI''])" "[]"] e t n
    by simp
qed

text \<open>
  C10, as stated, fails: grouping is not total over arbitrary tags. For the tags
  \<^verbatim>\<open>[["AI"]]\<close> the primary tag is the list \<^verbatim>\<open>["AI"]\<close>, and
  \<^verbatim>\<open>primary not in grouped\<close> raises \<^verbatim>\<open>TypeError\<close> (unhashable type).
\<close>

theorem group_by_topic_unhashable_tag:
  "group_by_topic [ex_item (PList [PList [PStr ''AI'']])] = Inl TypeError"
  by (simp add: group_by_topic_def primary_tag_def ex_item_def)

subsection \<open>Enrichment\<close>

lemma enrich_loop_rows:
  "enrich_loop w d candidates processed = (r, d') \<Longrightarrow>
     set (rows d) \<subseteq> set (rows d') \<and> insert_fails d' = insert_fails d"
proof (induction candidates arbitrary: d processed)
  case Nil
  then show ?case by simp
next
  case (Cons a candidates)
  show ?case
  proof (cases "normalize_date w (published a)")
    case (Inl e)
    with Cons.prems show ?thesis by simp
  next
    case (Inr p)
    obtain d1 where d1: "add_seen d (art_id a) = Inr d1" using add_seen_returns by blast
    with Cons.prems Inr
    have "enrich_loop w d1 candidates (processed @ [digest_item w a p]) = (r, d')" by simp
    from Cons.IH[OF this] add_seen_rows[OF d1] show ?thesis by auto
  qed
qed

lemma enrich_loop_items:
  assumes "enrich_loop w d candidates processed = (Inr result, d')"
  shows "\<exists>items. result = processed @ items
     \<and> list_all2 (\<lambda>a it. item_of w a = Some it) candidates items
     \<and> (\<forall>a \<in> set candidates. \<forall>k. art_id a = Some k \<and> \<not> insert_fails d k \<longrightarrow> k \<in> set (rows d'))"
  using assms
proof (induction candidates arbitrary: d processed)
  case Nil
  then show ?case by simp
next
  case (Cons a candidates)
  show ?case
  proof (cases "normalize_date w (published a)")
    case (Inl e)
    with Cons.prems show ?thesis by simp
  next
    case (Inr p)
    obtain d1 where d1: "add_seen d (art_id a) = Inr d1" using add_seen_returns by blast
    with Cons.prems Inr
    have run: "enrich_loop w d1 candidates (processed @ [digest_item w a p]) = (Inr result, d')"
      by simp
    from Cons.IH[OF run] obtain items where
      it: "result = (processed @ [digest_item w a p]) @ items"
        "list_all2 (\<lambda>a it. item_of w a = Some it) candidates items"
        "\<forall>a \<in> set candidates. \<forall>k. art_id a = Some k \<and> \<not> insert_fails d1 k \<longrightarrow> k \<in> set (rows d')"
      by blast
    have f: "insert_fails d1 = insert_fails d" using add_seen_rows[OF d1] by simp
    have "\<forall>k. art_id a = Some k \<and> \<not> insert_fails d k \<longrightarrow> k \<in> set (rows d1)"
      using d1 by (auto simp: add_seen_def execute_insert_def split: if_splits)
    moreover have "set (rows d1) \<subseteq> set (rows d')" using enrich_loop_rows[OF run] by simp
    ultimately have rec: "\<forall>k. art_id a = Some k \<and> \<not> insert_fails d k \<longrightarrow> k \<in> set (rows d')"
      by blast
    have "item_of w a = Some (digest_item w a p)" using Inr by (simp add: item_of_def)
    then show ?thesis using it f rec
      by (intro exI[of _ "digest_item w a p # items"]) simp
  qed
qed






lemma ex_normalize_date:
  "normalize_date ex_env (Some ''2024-01-02'') = Inr (Some ''2024-01-02 00:00 UTC'')"
  "normalize_date ex_env (Some ''2024-01-01'') = Inr (Some ''2024-01-01 00:00 UTC'')"
  "normalize_date ex_env (Some ''0001-01-01'') = Inl ValueError"
  by (simp_all add: normalize_date_def ex_env_def)

lemma ex_digest_item:
  "digest_item ex_env (ex_article k d) (Some p) = ex_fallback_item k p"
  by (simp add: ex_article_def digest_item_def call_llm_for_article_def ex_env_def
      fallback_dict_def dict_get_def or_empty_def ex_fallback_item_def)

lemma ex_enrich_loop:
  "enrich_loop ex_env ex_db
       [ex_article ''a'' (Some ''2024-01-02''), ex_article ''b'' (Some ''2024-01-01'')] []
     = (Inr [ex_fallback_item ''a'' ''2024-01-02 00:00 UTC'',
             ex_fallback_item ''b'' ''2024-01-01 00:00 UTC''],
        ex_db\<lparr>rows := [''a'', ''b'']\<rparr>)"
proof -
  have p: "published (ex_article ''a'' (Some ''2024-01-02'')) = Some ''2024-01-02''"
    "published (ex_article ''b'' (Some ''2024-01-01'')) = Some ''2024-01-01''"
    "art_id (ex_article ''a'' (Some ''2024-01-02'')) = Some ''a''"
    "art_id (ex_article ''b'' (Some ''2024-01-01'')) = Some ''b''"
    by (simp_all add: ex_article_def)
  show ?thesis
    by (simp add: p ex_normalize_date ex_digest_item add_seen_def execute_insert_def ex_db_def)
qed


lemma rss_loop_all_feeds_fail:
  "\<forall>f \<in> set feeds. \<exists>e. feedparser_parse w f = Inl e \<Longrightarrow> rss_loop w feeds results = results"
  by (induction feeds arbitrary: results) auto



text \<open>
  C4 (amended). The item of an article carries the default tags \<^verbatim>\<open>["Other"]\<close>, sentiment
  \<^verbatim>\<open>Neutral\<close> and score \<open>0.5\<close>, hence a well-formed Enrichment, in three cases: the chat
  completion fails, its content is not JSON, or its content is JSON but not an object.
  When the content is a JSON object, the summary, tags, sentiment and score of the item
  are the values of that object under these keys, unchanged (\<^verbatim>\<open>None\<close> for a missing key):
  nothing is defaulted or checked. The normalized date \<open>p\<close> of the item plays no part.
\<close>

theorem digest_item_enrichment_by_tier:
  "(\<forall>e. chat_completion w a = Inl e \<longrightarrow>
       summary (digest_item w a p) = PStr (or_empty (title a))
       \<and> tags (digest_item w a p) = PList [PStr ''Other'']
       \<and> sentiment (digest_item w a p) = PStr ''Neutral''
       \<and> score (digest_item w a p) = PFloat (1 / 2)
       \<and> well_formed_enrichment (digest_item w a p))
   \<and> (\<forall>out. chat_completion w a = Inr out \<and> json_loads w out = None \<longrightarrow>
       summary (digest_item w a p) = PStr (take 400 out)
       \<and> tags (digest_item w a p) = PList [PStr ''Other'']
       \<and> sentiment (digest_item w a p) = PStr ''Neutral''
       \<and> score (digest_item w a p) = PFloat (1 / 2)
       \<and> well_formed_enrichment (digest_item w a p))
   \<and> (\<forall>out v. chat_completion w a = Inr out \<and> json_loads w out = Some v
          \<and> (\<forall>kvs. v \<noteq> PDict kvs) \<longrightarrow>
       summary (digest_item w a p) = PStr (take 400 (py_str w v))
       \<and> tags (digest_item w a p) = PList [PStr ''Other'']
       \<and> sentiment (digest_item w a p) = PStr ''Neutral''
       \<and> score (digest_item w a p) = PFloat (1 / 2)
       \<and> well_formed_enrichment (digest_item w a p))
   \<and> (\<forall>out kvs. chat_completion w a = Inr out \<and> json_loads w out = Some (PDict kvs) \<longrightarrow>
       summary (digest_item w a p) = dict_get kvs ''summary''
       \<and> tags (digest_item w a p) = dict_get kvs ''tags''
       \<and> sentiment (digest_item w a p) = dict_get kvs ''sentiment''
       \<and> score (digest_item w a p) = dict_get kvs ''score'')"
proof (intro conjI allI impI)
  fix out v
  assume "chat_completion w a = Inr out \<and> json_loads w out = Some v \<and> (\<forall>kvs. v \<noteq> PDict kvs)"
  then have c: "call_llm_for_article w a = v" and nd: "\<forall>kvs. v \<noteq> PDict kvs"
    by (simp_all add: call_llm_for_article_def)
  then show "summary (digest_item w a p) = PStr (take 400 (py_str w v))"
    "tags (digest_item w a p) = PList [PStr ''Other'']"
    "sentiment (digest_item w a p) = PStr ''Neutral''"
    "score (digest_item w a p) = PFloat (1 / 2)"
    "well_formed_enrichment (digest_item w a p)"
    by (cases v; simp add: digest_item_def well_formed_enrichment_def)+
qed (simp_all add: digest_item_def call_llm_for_article_def fallback_dict_def dict_get_def
      well_formed_enrichment_def)

text \<open>
  A content that is not JSON: the summary is the content and the rest is the default.
\<close>

theorem digest_item_enrichment_by_tier_witness:
  "chat_completion (ex_env\<lparr>chat_completion := (\<lambda>a. Inr ''no json'')\<rparr>)
       (ex_article ''a'' None) = Inr ''no json''
   \<and> json_loads (ex_env\<lparr>chat_completion := (\<lambda>a. Inr ''no json'')\<rparr>) ''no json'' = None
   \<and> summary (digest_item (ex_env\<lparr>chat_completion := (\<lambda>a. Inr ''no json'')\<rparr>)
        (ex_article ''a'' None) None) = PStr ''no json''
   \<and> well_formed_enrichment (digest_item (ex_env\<lparr>chat_completion := (\<lambda>a. Inr ''no json'')\<rparr>)
        (ex_article ''a'' None) None)"
proof -
  have c: "chat_completion (ex_env\<lparr>chat_completion := (\<lambda>a. Inr ''no json'')\<rparr>)
       (ex_article ''a'' None) = Inr ''no json''" by simp
  have j: "json_loads (ex_env\<lparr>chat_completion := (\<lambda>a. Inr ''no json'')\<rparr>) ''no json'' = None"
    by (simp add: ex_env_def ex_json_def)
  show ?thesis
    using digest_item_enrichment_by_tier
      [of "ex_env\<lparr>chat_completion := (\<lambda>a. Inr ''no json'')\<rparr>" "ex_article ''a'' None" None] c j
    by simp
qed

text \<open>
  C4, as stated, fails: for the content \<open>ex_json\<close>, a JSON object with an empty tag list
  and no sentiment or score, the item has the empty list as its tags and \<^verbatim>\<open>None\<close> as its
  sentiment and score.
\<close>

theorem digest_item_empty_tags:
  "chat_completion (ex_env\<lparr>chat_completion := (\<lambda>a. Inr ex_json)\<rparr>) (ex_article ''a'' None)
     = Inr ex_json
   \<and> tags (digest_item (ex_env\<lparr>chat_completion := (\<lambda>a. Inr ex_json)\<rparr>)
        (ex_article ''a'' None) None) = PList []
   \<and> sentiment (digest_item (ex_env\<lparr>chat_completion := (\<lambda>a. Inr ex_json)\<rparr>)
        (ex_article ''a'' None) None) = PNone
   \<and> score (digest_item (ex_env\<lparr>chat_completion := (\<lambda>a. Inr ex_json)\<rparr>)
        (ex_article ''a'' None) None) = PNone
   \<and> \<not> well_formed_enrichment
        (digest_item (ex_env\<lparr>chat_completion := (\<lambda>a. Inr ex_json)\<rparr>) (ex_article ''a'' None) None)"
  by (simp add: digest_item_def call_llm_for_article_def ex_env_def dict_get_def
      well_formed_enrichment_def)

subsection \<open>The whole run\<close>

lemma main_rows_kept: "set (rows d) \<subseteq> set (rows (snd (main c w d)))"
proof -
  have "\<And>cands r d'. enrich_loop w d cands [] = (r, d') \<Longrightarrow> set (rows d) \<subseteq> set (rows d')"
    using enrich_loop_rows by blast
  then show ?thesis
    by (fastforce simp: main_def split: sum.splits prod.splits)
qed

text \<open>
  C9. No run removes a row of the cache. When the fetch and the dedupe stage succeed with
  at least one candidate, the enrichment loop completes and the delivery then fails with
  an error, \<^verbatim>\<open>main\<close> ends with this error and leaves the cache as the enrichment loop left
  it: it holds every row it held before the run and the id of every candidate whose
  insert the database executed.
\<close>

theorem delivery_failure_keeps_seen_rows:
  "set (rows d) \<subseteq> set (rows (snd (main c w d)))
   \<and> (fetch_newsapi c w = Inr newsapi_articles
        \<and> fetch_rss_feeds c w = Inr rss_articles
        \<and> select_candidates c d (newsapi_articles @ rss_articles) = Inr candidates
        \<and> candidates \<noteq> []
        \<and> enrich_loop w d candidates [] = (Inr processed, d')
        \<and> build_and_send c w processed = Inl e
      \<longrightarrow> main c w d = (Inl e, d')
          \<and> length processed = length candidates
          \<and> set (rows d) \<subseteq> set (rows d')
          \<and> (\<forall>a \<in> set candidates. \<forall>k. art_id a = Some k \<and> \<not> insert_fails d k
                 \<longrightarrow> k \<in> set (rows d')))"
proof (intro conjI impI)
  show "set (rows d) \<subseteq> set (rows (snd (main c w d)))" by (rule main_rows_kept)
next
  assume a: "fetch_newsapi c w = Inr newsapi_articles
        \<and> fetch_rss_feeds c w = Inr rss_articles
        \<and> select_candidates c d (newsapi_articles @ rss_articles) = Inr candidates
        \<and> candidates \<noteq> []
        \<and> enrich_loop w d candidates [] = (Inr processed, d')
        \<and> build_and_send c w processed = Inl e"
  then have run: "enrich_loop w d candidates [] = (Inr processed, d')" by simp
  from enrich_loop_items[OF run]
  have l: "list_all2 (\<lambda>a it. item_of w a = Some it) candidates processed"
    and rec: "\<forall>a \<in> set candidates. \<forall>k. art_id a = Some k \<and> \<not> insert_fails d k
                 \<longrightarrow> k \<in> set (rows d')"
    by simp_all
  from l show len: "length processed = length candidates" by (simp add: list_all2_lengthD)
  with a have "processed \<noteq> []" by auto
  then show "main c w d = (Inl e, d')" using a by (simp add: main_def)
  show "set (rows d) \<subseteq> set (rows d')" using enrich_loop_rows[OF run] by simp
  show "\<forall>a \<in> set candidates. \<forall>k. art_id a = Some k \<and> \<not> insert_fails d k
                 \<longrightarrow> k \<in> set (rows d')" by (rule rec)
qed

lemma ex_select_candidates_15:
  "MAX_STORIES c = 15 \<Longrightarrow>
   select_candidates c ex_db
       ([ex_article ''a'' (Some ''2024-01-02'')] @ [ex_article ''b'' (Some ''2024-01-01'')])
     = Inr [ex_article ''a'' (Some ''2024-01-02''), ex_article ''b'' (Some ''2024-01-01'')]"
  by (simp add: select_candidates_def dedupe_and_filter_def sorted_by_published_def
      published_key_def or_empty_def ex_article_def ex_db_def derived_key_def
      py_or_def is_seen_def execute_select_def slice_to_def)

lemma ex_build_and_send_unconfigured:
  "SENDGRID_API_KEY c = None \<Longrightarrow>
   build_and_send c ex_env
       [ex_fallback_item ''a'' ''2024-01-02 00:00 UTC'',
        ex_fallback_item ''b'' ''2024-01-01 00:00 UTC'']
     = Inl RuntimeError"
  by (simp add: build_and_send_def group_by_topic_def primary_tag_def ex_fallback_item_def
      send_email_via_sendgrid_def)

text \<open>
  The mail is not configured: the run ends with \<^verbatim>\<open>RuntimeError\<close> and the ids of both
  articles are in the cache.
\<close>

theorem delivery_failure_keeps_seen_rows_witness:
  "build_and_send ((ex_config 15)\<lparr>SENDGRID_API_KEY := None\<rparr>) ex_env
       [ex_fallback_item ''a'' ''2024-01-02 00:00 UTC'',
        ex_fallback_item ''b'' ''2024-01-01 00:00 UTC'']
     = Inl RuntimeError
   \<and> main ((ex_config 15)\<lparr>SENDGRID_API_KEY := None\<rparr>) ex_env ex_db
     = (Inl RuntimeError, ex_db\<lparr>rows := [''a'', ''b'']\<rparr>)
   \<and> set (rows ex_db) \<subseteq> set (rows (ex_db\<lparr>rows := [''a'', ''b'']\<rparr>))"
proof -
  let ?c = "(ex_config 15)\<lparr>SENDGRID_API_KEY := None\<rparr>"
  have 1: "fetch_newsapi ?c ex_env = Inr [ex_article ''a'' (Some ''2024-01-02'')]"
    by (rule ex_fetch_newsapi) (simp add: ex_config_def)
  have 2: "fetch_rss_feeds ?c ex_env = Inr [ex_article ''b'' (Some ''2024-01-01'')]"
    by (rule ex_fetch_rss_feeds) (simp_all add: ex_config_def)
  have 3: "select_candidates ?c ex_db
       ([ex_article ''a'' (Some ''2024-01-02'')] @ [ex_article ''b'' (Some ''2024-01-01'')])
     = Inr [ex_article ''a'' (Some ''2024-01-02''), ex_article ''b'' (Some ''2024-01-01'')]"
    by (rule ex_select_candidates_15) (simp add: ex_config_def)
  have 4: "build_and_send ?c ex_env
       [ex_fallback_item ''a'' ''2024-01-02 00:00 UTC'',
        ex_fallback_item ''b'' ''2024-01-01 00:00 UTC'']
     = Inl RuntimeError"
    by (rule ex_build_and_send_unconfigured) simp
  show ?thesis
    using delivery_failure_keeps_seen_rows [of ex_db ?c ex_env
        "[ex_article ''a'' (Some ''2024-01-02'')]" "[ex_article ''b'' (Some ''2024-01-01'')]"
        "[ex_article ''a'' (Some ''2024-01-02''), ex_article ''b'' (Some ''2024-01-01'')]"
        "[ex_fallback_item ''a'' ''2024-01-02 00:00 UTC'',
          ex_fallback_item ''b'' ''2024-01-01 00:00 UTC'']"
        "ex_db\<lparr>rows := [''a'', ''b'']\<rparr>" RuntimeError] 1 2 3 4 ex_enrich_loop
    by (simp add: ex_db_def)
qed

text \<open>
  C1, on a failing input. The request to NewsAPI raises: \<^verbatim>\<open>fetch_newsapi\<close> has no handler,
  so \<^verbatim>\<open>main\<close> ends with the exception, although the feed adapter would have returned an
  article.
\<close>

theorem newsapi_failure_aborts_run:
  "fetch_newsapi (ex_config 15) (ex_env\<lparr>requests_get_json := Inl ConnectionError\<rparr>)
     = Inl ConnectionError
   \<and> fetch_rss_feeds (ex_config 15) (ex_env\<lparr>requests_get_json := Inl ConnectionError\<rparr>)
     = Inr [ex_article ''b'' (Some ''2024-01-01'')]
   \<and> main (ex_config 15) (ex_env\<lparr>requests_get_json := Inl ConnectionError\<rparr>) ex_db
     = (Inl ConnectionError, ex_db)"
proof -
  have 1: "fetch_newsapi (ex_config 15) (ex_env\<lparr>requests_get_json := Inl ConnectionError\<rparr>)
     = Inl ConnectionError"
    by (simp add: fetch_newsapi_def ex_config_def)
  have 2: "fetch_rss_feeds (ex_config 15) (ex_env\<lparr>requests_get_json := Inl ConnectionError\<rparr>)
     = Inr [ex_article ''b'' (Some ''2024-01-01'')]"
    by (rule ex_fetch_rss_feeds) (simp_all add: ex_config_def)
  show ?thesis using 1 2 by (simp add: main_def)
qed

text \<open>
  The feed adapter does isolate the same failure: the feed cannot be fetched, the adapter
  returns the empty list and the run sends the article of NewsAPI.
\<close>

lemma rss_failure_keeps_run:
  "fetch_rss_feeds (ex_config 15) (ex_env\<lparr>feedparser_parse := (\<lambda>f. Inl ConnectionError)\<rparr>) = Inr []
   \<and> main (ex_config 15) (ex_env\<lparr>feedparser_parse := (\<lambda>f. Inl ConnectionError)\<rparr>) ex_db
     = (Inr Sent, ex_db\<lparr>rows := [''a'']\<rparr>)"
proof -
  let ?w = "ex_env\<lparr>feedparser_parse := (\<lambda>f. Inl ConnectionError)\<rparr>"
  have 1: "fetch_newsapi (ex_config 15) ?w = Inr [ex_article ''a'' (Some ''2024-01-02'')]"
    by (simp add: fetch_newsapi_def source_name_def ex_env_def ex_article_def ex_config_def)
  have 2: "fetch_rss_feeds (ex_config 15) ?w = Inr []"
    by (simp add: fetch_rss_feeds_def rss_loop_all_feeds_fail)
  have 3: "select_candidates (ex_config 15) ex_db [ex_article ''a'' (Some ''2024-01-02'')]
     = Inr [ex_article ''a'' (Some ''2024-01-02'')]"
    by (simp add: select_candidates_def dedupe_and_filter_def sorted_by_published_def
      published_key_def or_empty_def ex_article_def ex_db_def derived_key_def ex_config_def
      py_or_def is_seen_def execute_select_def slice_to_def)
  have 4: "enrich_loop ?w ex_db [ex_article ''a'' (Some ''2024-01-02'')] []
     = (Inr [ex_fallback_item ''a'' ''2024-01-02 00:00 UTC''], ex_db\<lparr>rows := [''a'']\<rparr>)"
    by (simp add: add_seen_def execute_insert_def ex_db_def ex_article_def digest_item_def
      call_llm_for_article_def ex_env_def fallback_dict_def dict_get_def normalize_date_def
      or_empty_def ex_fallback_item_def)
  have 5: "build_and_send (ex_config 15) ?w [ex_fallback_item ''a'' ''2024-01-02 00:00 UTC'']
     = Inr ()"
    by (simp add: build_and_send_def group_by_topic_def primary_tag_def ex_fallback_item_def
      send_email_via_sendgrid_def ex_config_def ex_env_def)
  show ?thesis using 1 2 3 4 5 by (simp add: main_def)
qed

text \<open>
  C3, on a failing input. An article of NewsAPI with a title and no url has the id
  \<^verbatim>\<open>None\<close> and the derived key \<open>T\<close>. The run sends it and calls \<^verbatim>\<open>add_seen(None)\<close>, whose
  insert violates the not-null constraint and is dropped: the cache is unchanged and the
  key \<open>T\<close> is still unseen, so the next run sends the article again.
\<close>

theorem title_key_is_not_recorded:
  "fetch_newsapi (ex_config 15) ex_env_no_url = Inr [ex_article_no_url]
   \<and> select_candidates (ex_config 15) ex_db [ex_article_no_url] = Inr [ex_article_no_url]
   \<and> derived_key ex_article_no_url = Some ''T''
   \<and> main (ex_config 15) ex_env_no_url ex_db = (Inr Sent, ex_db)
   \<and> is_seen ex_db ''T'' = Inr False"
proof -
  have 1: "fetch_newsapi (ex_config 15) ex_env_no_url = Inr [ex_article_no_url]"
    by (simp add: fetch_newsapi_def source_name_def ex_env_no_url_def ex_article_no_url_def
        ex_config_def)
  have 2: "fetch_rss_feeds (ex_config 15) ex_env_no_url = Inr []"
    by (simp add: fetch_rss_feeds_def rss_loop_all_feeds_fail ex_env_no_url_def)
  have 3: "select_candidates (ex_config 15) ex_db [ex_article_no_url] = Inr [ex_article_no_url]"
    by (simp add: select_candidates_def dedupe_and_filter_def sorted_by_published_def
      published_key_def or_empty_def ex_article_no_url_def ex_db_def derived_key_def ex_config_def
      py_or_def is_seen_def execute_select_def slice_to_def)
  have 4: "normalize_date ex_env_no_url (published ex_article_no_url)
      = Inr (Some ''2024-01-02 00:00 UTC'')"
    by (simp add: normalize_date_def ex_env_no_url_def ex_env_def ex_article_no_url_def)
  have 5: "build_and_send (ex_config 15) ex_env_no_url
      [digest_item ex_env_no_url ex_article_no_url (Some ''2024-01-02 00:00 UTC'')] = Inr ()"
    by (simp add: build_and_send_def group_by_topic_def primary_tag_def digest_item_def
      call_llm_for_article_def ex_env_no_url_def ex_env_def fallback_dict_def dict_get_def
      send_email_via_sendgrid_def ex_config_def)
  have 6: "enrich_loop ex_env_no_url ex_db [ex_article_no_url] []
      = (Inr [digest_item ex_env_no_url ex_article_no_url (Some ''2024-01-02 00:00 UTC'')], ex_db)"
    using 4 by (simp add: add_seen_def execute_insert_def ex_article_no_url_def)
  have 7: "derived_key ex_article_no_url = Some ''T''"
    by (simp add: derived_key_def py_or_def ex_article_no_url_def)
  have 8: "is_seen ex_db ''T'' = Inr False"
    by (simp add: is_seen_def execute_select_def ex_db_def)
  show ?thesis using 1 2 3 5 6 7 8 by (simp add: main_def)
qed

end
